theory Spec2Isabelle
  imports Complex_Main
begin

section \<open>JavaScript values used by script.js\<close>

text \<open>
  A JavaScript Number is an IEEE-754 double (binary64). The model keeps the three
  non-finite values apart and writes a finite double as the real number it denotes, so
  \<open>Fin x\<close> is meant for the reals \<open>x\<close> that are doubles: the numbers \<open>m * 2 ^ e\<close> and
  \<open>- (m * 2 ^ e)\<close> with \<open>m < 2 ^ 53\<close>, \<open>- 1074 \<le> e\<close> and a magnitude below \<open>2 ^ 1024\<close>.
  \<open>Number.isFinite\<close>, \<open>>\<close> and \<open>/\<close> follow the language on \<open>NaN\<close> and the
  infinities. The two zeros are not told apart, as \<open>===\<close> does not tell them apart;
  a zero divisor is read as \<open>+0\<close>.
\<close>

datatype jsnum = NaN | PInf | NInf | Fin real

fun Number_isFinite :: "jsnum \<Rightarrow> bool" where
  "Number_isFinite (Fin x) = True"
| "Number_isFinite _ = False"

text \<open>The relational operator \<open>a > b\<close> on Numbers: false as soon as one side is \<open>NaN\<close>.\<close>

fun js_gt :: "jsnum \<Rightarrow> jsnum \<Rightarrow> bool" where
  "js_gt NaN b = False"
| "js_gt a NaN = False"
| "js_gt PInf PInf = False"
| "js_gt PInf b = True"
| "js_gt NInf b = False"
| "js_gt (Fin x) PInf = False"
| "js_gt (Fin x) NInf = True"
| "js_gt (Fin x) (Fin y) = (y < x)"

subsection \<open>Rounding to a double\<close>

text \<open>
  An arithmetic operation on doubles returns the real result rounded to the nearest
  double, a tie going to the double with the even significand. \<open>normalise a\<close> writes
  \<open>a \<ge> 0\<close> as \<open>s * 2 ^ e\<close> on the grid on which the doubles near \<open>a\<close> lie: the scaled
  value \<open>s\<close> is below \<open>2 ^ 53\<close>, and it is at least \<open>2 ^ 52\<close> unless the exponent has reached
  \<open>- 1074\<close>, the grid of the subnormal doubles. Rounding \<open>s\<close> to an integer then gives
  the significand. A rounded magnitude of \<open>2 ^ 1024\<close> or more is an infinity (overflow);
  a magnitude of at most \<open>2 ^ - 1075\<close> rounds to zero (underflow).
\<close>

definition round_half_even :: "real \<Rightarrow> int" where
  "round_half_even x =
     (let f = \<lfloor>x\<rfloor>; r = x - of_int f
      in if r < 1 / 2 then f else if 1 / 2 < r then f + 1 else if even f then f else f + 1)"

function scale_down :: "int \<Rightarrow> real \<Rightarrow> int \<times> real" where
  "scale_down e a = (if 2 ^ 53 \<le> a then scale_down (e + 1) (a / 2) else (e, a))"
  by pat_completeness auto
termination
proof (relation "measure (\<lambda>(e, a). nat \<lceil>a\<rceil>)")
  show "wf (measure (\<lambda>(e, a). nat \<lceil>a\<rceil>))" by simp
next
  fix e :: int and a :: real
  assume a: "2 ^ 53 \<le> a"
  then have "a / 2 \<le> a - 1" by simp
  then have "\<lceil>a / 2\<rceil> \<le> \<lceil>a - 1\<rceil>" by (rule ceiling_mono)
  moreover from a have "0 < \<lceil>a\<rceil>" by (simp add: less_ceiling_iff)
  ultimately show "((e + 1, a / 2), (e, a)) \<in> measure (\<lambda>(e, a). nat \<lceil>a\<rceil>)"
    by simp
qed

function scale_up :: "int \<Rightarrow> real \<Rightarrow> int \<times> real" where
  "scale_up e a = (if a < 2 ^ 52 \<and> - 1074 < e then scale_up (e - 1) (a * 2) else (e, a))"
  by pat_completeness auto
termination
  by (relation "measure (\<lambda>(e, a). nat (e + 1074))") auto

declare scale_down.simps [simp del] scale_up.simps [simp del]

definition normalise :: "real \<Rightarrow> int \<times> real" where
  "normalise a = (let (e1, a1) = scale_down 0 a in scale_up e1 a1)"

definition round_double :: "real \<Rightarrow> jsnum" where
  "round_double x =
     (let (e, s) = normalise \<bar>x\<bar>;
          v = of_int (round_half_even s) * 2 powi e
      in if 2 ^ 1024 \<le> v then (if x < 0 then NInf else PInf)
         else Fin (if x < 0 then - v else v))"

text \<open>
  The operator \<open>a / b\<close> on Numbers: on finite operands with a divisor other than zero it
  is the real quotient rounded to a double, so it can be an infinity (overflow) or zero
  (underflow) where the real quotient is neither.
\<close>

fun js_div :: "jsnum \<Rightarrow> jsnum \<Rightarrow> jsnum" where
  "js_div NaN b = NaN"
| "js_div a NaN = NaN"
| "js_div PInf (Fin y) = (if y < 0 then NInf else PInf)"
| "js_div NInf (Fin y) = (if y < 0 then PInf else NInf)"
| "js_div PInf b = NaN"
| "js_div NInf b = NaN"
| "js_div (Fin x) PInf = Fin 0"
| "js_div (Fin x) NInf = Fin 0"
| "js_div (Fin x) (Fin y) =
     (if y = 0 then (if x = 0 then NaN else if 0 < x then PInf else NInf)
      else round_double (x / y))"

subsection \<open>Strings\<close>

text \<open>
  The strings script.js computes with (type tags, identifiers, month names, digits) are
  ASCII, so a JavaScript string is a \<open>string\<close> here. \<open>slice start s\<close> is
  \<open>s.slice(start)\<close>: a negative start counts from the end and is clamped at 0.
\<close>

definition slice :: "int \<Rightarrow> string \<Rightarrow> string" where
  "slice start s =
     (let len = int (length s);
          from = (if start < 0 then max (len + start) 0 else min start len)
      in drop (nat from) s)"

text \<open>\<open>toUpperCase\<close> on one ASCII character: the 26 lower-case letters change.\<close>

definition toUpperCase :: "char \<Rightarrow> char" where
  "toUpperCase c =
     (case map_of (zip ''abcdefghijklmnopqrstuvwxyz'' ''ABCDEFGHIJKLMNOPQRSTUVWXYZ'') c of
        Some u \<Rightarrow> u
      | None \<Rightarrow> c)"

text \<open>
  Number-to-string conversion of an integral Number (\<open>Date.now() + ''\<close>, and the day of
  the month inside the template literal): the decimal digits, with a minus sign below 0.
\<close>

definition digit_char :: "int \<Rightarrow> char" where
  "digit_char d = ''0123456789'' ! nat d"

function digits :: "int \<Rightarrow> string" where
  "digits n = (if n < 10 then [digit_char n] else digits (n div 10) @ [digit_char (n mod 10)])"
  by pat_completeness auto
termination
  by (relation "measure nat") auto

declare digits.simps [simp del]

definition Number_toString :: "int \<Rightarrow> string" where
  "Number_toString i = (if i < 0 then CHR ''-'' # digits (- i) else digits i)"

subsection \<open>Dates\<close>

text \<open>
  A \<open>Date\<close> object holds a time value: milliseconds since 1970-01-01T00:00:00Z, an
  integer. The functions below are the ones of the language definition (ECMA-262, section
  "Time Values and Time Range"); \<open>YearFromTime\<close>, defined there as the largest year that
  starts at or before the time, is computed from an estimate that is off by at most one.
\<close>

definition msPerDay :: int where
  "msPerDay = 86400000"

definition Day :: "int \<Rightarrow> int" where
  "Day t = t div msPerDay"

definition DaysInYear :: "int \<Rightarrow> int" where
  "DaysInYear y =
     (if y mod 4 \<noteq> 0 then 365 else if y mod 100 \<noteq> 0 then 366
      else if y mod 400 \<noteq> 0 then 365 else 366)"

definition DayFromYear :: "int \<Rightarrow> int" where
  "DayFromYear y =
     365 * (y - 1970) + (y - 1969) div 4 - (y - 1901) div 100 + (y - 1601) div 400"

definition YearFromTime :: "int \<Rightarrow> int" where
  "YearFromTime t =
     (let d = Day t; y = 1970 + (d * 400) div 146097
      in if d < DayFromYear y then y - 1
         else if DayFromYear (y + 1) \<le> d then y + 1
         else y)"

definition InLeapYear :: "int \<Rightarrow> int" where
  "InLeapYear t = (if DaysInYear (YearFromTime t) = 366 then 1 else 0)"

definition DayWithinYear :: "int \<Rightarrow> int" where
  "DayWithinYear t = Day t - DayFromYear (YearFromTime t)"

definition MonthFromTime :: "int \<Rightarrow> int" where
  "MonthFromTime t =
     (let d = DayWithinYear t; l = InLeapYear t
      in if d < 31 then 0
         else if d < 59 + l then 1
         else if d < 90 + l then 2
         else if d < 120 + l then 3
         else if d < 151 + l then 4
         else if d < 181 + l then 5
         else if d < 212 + l then 6
         else if d < 243 + l then 7
         else if d < 273 + l then 8
         else if d < 304 + l then 9
         else if d < 334 + l then 10
         else 11)"

definition DateFromTime :: "int \<Rightarrow> int" where
  "DateFromTime t =
     (let d = DayWithinYear t; l = InLeapYear t; m = MonthFromTime t
      in if m = 0 then d + 1
         else if m = 1 then d - 30
         else if m = 2 then d - 58 - l
         else if m = 3 then d - 89 - l
         else if m = 4 then d - 119 - l
         else if m = 5 then d - 150 - l
         else if m = 6 then d - 180 - l
         else if m = 7 then d - 211 - l
         else if m = 8 then d - 242 - l
         else if m = 9 then d - 272 - l
         else if m = 10 then d - 303 - l
         else d - 333 - l)"

text \<open>
  Local time is the time value shifted by the host's offset from UTC (\<open>LocalTZA\<close>, in
  milliseconds), which the environment supplies. \<open>getMonth\<close> counts from 0, \<open>getDate\<close>
  is the day of the month.
\<close>

definition getMonth :: "int \<Rightarrow> int \<Rightarrow> int" where
  "getMonth tza t = MonthFromTime (t + tza)"

definition getDate :: "int \<Rightarrow> int \<Rightarrow> int" where
  "getDate tza t = DateFromTime (t + tza)"

text \<open>
  \<open>Date.prototype.toISOString\<close>, which \<open>JSON.stringify\<close> calls through \<open>toJSON\<close>:
  \<open>YYYY-MM-DDTHH:mm:ss.sssZ\<close> in UTC, the year with six digits and a sign outside
  0..9999.
\<close>

definition pad :: "nat \<Rightarrow> int \<Rightarrow> string" where
  "pad k i = (let ds = digits i in replicate (k - length ds) CHR ''0'' @ ds)"

definition toISOString :: "int \<Rightarrow> string" where
  "toISOString t =
     (let y = YearFromTime t;
          year = (if 0 \<le> y \<and> y \<le> 9999 then pad 4 y
                  else (if y < 0 then CHR ''-'' else CHR ''+'') # pad 6 (abs y))
      in year @ ''-'' @ pad 2 (MonthFromTime t + 1) @ ''-'' @ pad 2 (DateFromTime t)
         @ ''T'' @ pad 2 ((t div 3600000) mod 24) @ '':'' @ pad 2 ((t div 60000) mod 60)
         @ '':'' @ pad 2 ((t div 1000) mod 60) @ ''.'' @ pad 3 (t mod 1000) @ ''Z'')"

section \<open>The workout classes\<close>

text \<open>
  What the constructors read from their surroundings: the time value of \<open>new Date()\<close>
  (the field initialiser of \<open>date\<close>), the value of \<open>Date.now()\<close> (the initialiser of
  \<open>id\<close>, a second reading of the clock), and the host's offset from UTC, which
  \<open>getMonth\<close> and \<open>getDate\<close> apply.
\<close>

record env =
  new_Date :: int
  Date_now :: int
  LocalTZA :: int

datatype js_error = TypeError

type_synonym latlng = "jsnum \<times> jsnum"

text \<open>
  \<open>class Workout\<close>: the fields in the order the object gets them (the field initialisers
  \<open>date\<close>, \<open>id\<close>, \<open>clicks\<close>, then the constructor's \<open>coords\<close>, \<open>distance\<close>,
  \<open>duration\<close>). \<open>clicks\<close> only ever counts up from 0 and is an integer here.
\<close>

record workout =
  date :: int
  id_w :: string
  clicks :: int
  coords :: latlng
  distance :: jsnum
  duration :: jsnum

definition Workout :: "env \<Rightarrow> latlng \<Rightarrow> jsnum \<Rightarrow> jsnum \<Rightarrow> workout" where
  "Workout e coords' distance' duration' =
     \<lparr> date = new_Date e,
       id_w = slice (- 10) (Number_toString (Date_now e)),
       clicks = 0,
       coords = coords',
       distance = distance',
       duration = duration' \<rparr>"

definition click :: "'a workout_scheme \<Rightarrow> 'a workout_scheme" where
  "click this = this\<lparr> clicks := clicks this + 1 \<rparr>"

definition months :: "string list" where
  "months = [''January'', ''February'', ''March'', ''April'', ''May'', ''June'', ''July'',
     ''August'', ''September'', ''October'', ''November'', ''December'']"

text \<open>
  \<open>_setDescription\<close> reads \<open>this.type\<close> and \<open>this.date\<close> and computes the string it
  stores in \<open>this.description\<close>; the constructors below store it. \<open>this.type[0]\<close> of an
  empty tag is \<open>undefined\<close>, and calling \<open>toUpperCase\<close> on it raises; an index outside
  the month table would read \<open>undefined\<close>, which the template prints as such.
\<close>

definition setDescription :: "int \<Rightarrow> string \<Rightarrow> int \<Rightarrow> js_error + string" where
  "setDescription tza type_tag d =
     (case type_tag of
        [] \<Rightarrow> Inl TypeError
      | ch # _ \<Rightarrow>
          Inr (toUpperCase ch # slice 1 type_tag @ '' on ''
               @ (let m = getMonth tza d
                  in if 0 \<le> m \<and> m < int (length months) then months ! nat m
                     else ''undefined'')
               @ '' '' @ Number_toString (getDate tza d)))"

text \<open>
  \<open>class Running extends Workout\<close>. \<open>calcPace\<close> returns the value it stores in
  \<open>this.pace\<close>.
\<close>

record running = workout +
  type :: string
  cadence :: jsnum
  pace :: jsnum
  description :: string

definition calcPace :: "'a workout_scheme \<Rightarrow> jsnum" where
  "calcPace this = js_div (duration this) (distance this)"

definition Running :: "env \<Rightarrow> latlng \<Rightarrow> jsnum \<Rightarrow> jsnum \<Rightarrow> jsnum \<Rightarrow> js_error + running" where
  "Running e coords' distance' duration' cadence' =
     (let this = Workout e coords' distance' duration'
      in case setDescription (LocalTZA e) ''running'' (date this) of
           Inl err \<Rightarrow> Inl err
         | Inr descr \<Rightarrow>
             Inr \<lparr> date = date this, id_w = id_w this, clicks = clicks this,
                   coords = coords this, distance = distance this, duration = duration this,
                   type = ''running'',
                   cadence = cadence',
                   pace = calcPace this,
                   description = descr \<rparr>)"

text \<open>
  \<open>class Cycling extends Workout\<close>. \<open>calcSpeed\<close> returns the value it stores in
  \<open>this.speed\<close>.
\<close>

record cycling = workout +
  type :: string
  elevation :: jsnum
  speed :: jsnum
  description :: string

definition calcSpeed :: "'a workout_scheme \<Rightarrow> jsnum" where
  "calcSpeed this = js_div (distance this) (js_div (duration this) (Fin 60))"

definition Cycling :: "env \<Rightarrow> latlng \<Rightarrow> jsnum \<Rightarrow> jsnum \<Rightarrow> jsnum \<Rightarrow> js_error + cycling" where
  "Cycling e coords' distance' duration' elevation' =
     (let this = Workout e coords' distance' duration'
      in case setDescription (LocalTZA e) ''cycling'' (date this) of
           Inl err \<Rightarrow> Inl err
         | Inr descr \<Rightarrow>
             Inr \<lparr> date = date this, id_w = id_w this, clicks = clicks this,
                   coords = coords this, distance = distance this, duration = duration this,
                   type = ''cycling'',
                   elevation = elevation',
                   speed = calcSpeed this,
                   description = descr \<rparr>)"

section \<open>Objects as the application handles them\<close>

text \<open>
  The application reads workouts by property name, whether they are instances of the
  classes or what \<open>JSON.parse\<close> gave back. A \<open>jsval\<close> is a JavaScript value of the
  kinds that occur: primitives, a \<open>Date\<close> object, an array, and a plain object as the
  list of its own properties in creation order.
\<close>

datatype jsval =
    Undefined
  | Null
  | Bool bool
  | Num jsnum
  | Str string
  | DateObj int
  | Arr "jsval list"
  | Obj "(string \<times> jsval) list"

text \<open>
  An element of \<open>#workouts\<close>: an instance of \<open>Running\<close>, an instance of \<open>Cycling\<close>, or
  any other value (\<open>undefined\<close>, or an element of the array read back from storage).
\<close>

datatype entry = RunningObj running | CyclingObj cycling | Value jsval

text \<open>The own properties of an instance, in the order the constructors create them.\<close>

definition workout_props :: "'a workout_scheme \<Rightarrow> (string \<times> jsval) list" where
  "workout_props w =
     [(''date'', DateObj (date w)),
      (''id'', Str (id_w w)),
      (''clicks'', Num (Fin (of_int (clicks w)))),
      (''coords'', Arr [Num (fst (coords w)), Num (snd (coords w))]),
      (''distance'', Num (distance w)),
      (''duration'', Num (duration w))]"

fun own_props :: "entry \<Rightarrow> (string \<times> jsval) list" where
  "own_props (RunningObj r) =
     workout_props r @
     [(''type'', Str (running.type r)),
      (''cadence'', Num (cadence r)),
      (''pace'', Num (pace r)),
      (''description'', Str (running.description r))]"
| "own_props (CyclingObj c) =
     workout_props c @
     [(''type'', Str (cycling.type c)),
      (''elevation'', Num (elevation c)),
      (''speed'', Num (speed c)),
      (''description'', Str (cycling.description c))]"
| "own_props (Value (Obj ps)) = ps"
| "own_props (Value v) = []"

text \<open>
  Reading a data property \<open>workout.k\<close> raises a \<open>TypeError\<close> when \<open>workout\<close> is
  \<open>undefined\<close> or \<open>null\<close> (\<open>nullish\<close>); on every other value it gives the value of
  the own property \<open>k\<close>, and \<open>undefined\<close> when there is none (\<open>own_prop\<close>).
\<close>

definition nullish :: "entry \<Rightarrow> bool" where
  "nullish w = (w = Value Undefined \<or> w = Value Null)"

definition own_prop :: "entry \<Rightarrow> string \<Rightarrow> jsval" where
  "own_prop w k = (case map_of (own_props w) k of None \<Rightarrow> Undefined | Some v \<Rightarrow> v)"

subsection \<open>JSON\<close>

text \<open>
  \<open>localStorage\<close> holds JSON text. The model keeps the text as the tree it denotes:
  \<open>serialize\<close> is \<open>JSON.stringify\<close> up to the spelling of that tree, \<open>parse\<close> is
  \<open>JSON.parse\<close> from it. \<open>serialize\<close> follows the language: \<open>undefined\<close> has no
  JSON form (an array element prints as \<open>null\<close>, an object property is left out), a
  Number that is not finite prints as \<open>null\<close>, a \<open>Date\<close> prints as the string its
  \<open>toJSON\<close> returns, an object prints its own properties.
\<close>

datatype json =
    JNull
  | JBool bool
  | JNumber real
  | JString string
  | JArray "json list"
  | JObject "(string \<times> json) list"

fun serialize :: "jsval \<Rightarrow> json option" where
  "serialize Undefined = None"
| "serialize Null = Some JNull"
| "serialize (Bool b) = Some (JBool b)"
| "serialize (Num n) = Some (case n of Fin x \<Rightarrow> JNumber x | _ \<Rightarrow> JNull)"
| "serialize (Str s) = Some (JString s)"
| "serialize (DateObj t) = Some (JString (toISOString t))"
| "serialize (Arr xs) =
     Some (JArray (map (\<lambda>x. case serialize x of None \<Rightarrow> JNull | Some j \<Rightarrow> j) xs))"
| "serialize (Obj ps) =
     Some (JObject (concat (map (\<lambda>(k, v). case serialize v of None \<Rightarrow> [] | Some j \<Rightarrow> [(k, j)]) ps)))"

fun parse :: "json \<Rightarrow> jsval" where
  "parse JNull = Null"
| "parse (JBool b) = Bool b"
| "parse (JNumber x) = Num (Fin x)"
| "parse (JString s) = Str s"
| "parse (JArray xs) = Arr (map parse xs)"
| "parse (JObject ps) = Obj (map (\<lambda>(k, v). (k, parse v)) ps)"

text \<open>\<open>JSON.stringify(this.#workouts)\<close>: an instance is serialised as an object.\<close>

fun entry_value :: "entry \<Rightarrow> jsval" where
  "entry_value (Value v) = v"
| "entry_value w = Obj (own_props w)"

definition JSON_stringify :: "entry list \<Rightarrow> json" where
  "JSON_stringify ws =
     JArray (map (\<lambda>w. case serialize (entry_value w) of None \<Rightarrow> JNull | Some j \<Rightarrow> j) ws)"

section \<open>The application\<close>

text \<open>
  The state of \<open>class App\<close> and of the page around it, as far as the submit handler and
  the storage methods touch it: the private fields \<open>#mapEvent\<close> (its \<open>latlng\<close>, absent
  until a click on the map) and \<open>#workouts\<close>, the messages shown by \<open>alert\<close>, the
  markers put on the map, the list entries inserted after the form (newest first),
  whether the form is hidden, and \<open>localStorage\<close>. Calls into the map library and the
  DOM are recorded with the values the templates interpolate; the markup around them
  is left out, and so is \<open>e.preventDefault()\<close>. The map object is taken to exist
  whenever \<open>#mapEvent\<close> does (the click handler that sets the field is registered on
  the loaded map), and the store to accept every write.
\<close>

record marker =
  marker_coords :: jsval
  popup_type :: jsval
  popup_description :: jsval

record list_item =
  li_type :: jsval
  li_id :: jsval
  li_description :: jsval
  li_distance :: jsval
  li_duration :: jsval
  li_details :: "(jsnum \<times> jsval) option"

record app =
  mapEvent :: "latlng option"
  workouts :: "entry list"
  alerts :: "string list"
  markers :: "marker list"
  list_items :: "list_item list"
  form_hidden :: bool
  localStorage :: "string \<rightharpoonup> json"

text \<open>
  What the handler reads from the form: \<open>inputType.value\<close>, and for the four numeric
  inputs the Number that unary \<open>+\<close> makes of the input's value. The inputs belong to
  the page and are given per submission; that \<open>_hideForm\<close> empties them afterwards is
  not part of the state below.
\<close>

record inputs =
  inputType :: string
  inputDistance :: jsnum
  inputDuration :: jsnum
  inputCadence :: jsnum
  inputElevation :: jsnum

datatype completion = Normal | Throw js_error

text \<open>\<open>x.toFixed(1)\<close> needs a Number: on any other value the call raises.\<close>

fun toFixed :: "jsval \<Rightarrow> js_error + jsnum" where
  "toFixed (Num n) = Inr n"
| "toFixed v = Inl TypeError"

definition alert :: "string \<Rightarrow> app \<Rightarrow> app" where
  "alert msg s = s\<lparr> alerts := alerts s @ [msg] \<rparr>"

definition renderWorkoutMarker :: "entry \<Rightarrow> app \<Rightarrow> js_error + app" where
  "renderWorkoutMarker workout s =
     (if nullish workout then Inl TypeError
      else Inr (s\<lparr> markers := markers s @
                  [\<lparr> marker_coords = own_prop workout ''coords'',
                     popup_type = own_prop workout ''type'',
                     popup_description = own_prop workout ''description'' \<rparr>] \<rparr>))"

definition renderWorkout :: "entry \<Rightarrow> app \<Rightarrow> js_error + app" where
  "renderWorkout workout s =
     (if nullish workout then Inl TypeError
      else
        let html = \<lparr> li_type = own_prop workout ''type'',
                     li_id = own_prop workout ''id'',
                     li_description = own_prop workout ''description'',
                     li_distance = own_prop workout ''distance'',
                     li_duration = own_prop workout ''duration'',
                     li_details = None \<rparr>
        in case (if own_prop workout ''type'' = Str ''running''
                 then (case toFixed (own_prop workout ''pace'') of
                         Inl err \<Rightarrow> Inl err
                       | Inr p \<Rightarrow> Inr (html\<lparr> li_details := Some (p, own_prop workout ''cadence'') \<rparr>))
                 else Inr html) of
             Inl err \<Rightarrow> Inl err
           | Inr html1 \<Rightarrow>
               (case (if own_prop workout ''type'' = Str ''cycling''
                      then (case toFixed (own_prop workout ''speed'') of
                              Inl err \<Rightarrow> Inl err
                            | Inr v \<Rightarrow> Inr (html1\<lparr> li_details := Some (v, own_prop workout ''elevation'') \<rparr>))
                      else Inr html1) of
                  Inl err \<Rightarrow> Inl err
                | Inr html2 \<Rightarrow> Inr (s\<lparr> list_items := html2 # list_items s \<rparr>)))"

definition hideForm :: "app \<Rightarrow> app" where
  "hideForm s = s\<lparr> form_hidden := True \<rparr>"

definition setLocalStorage :: "app \<Rightarrow> app" where
  "setLocalStorage s =
     s\<lparr> localStorage := (localStorage s)(''workouts'' \<mapsto> JSON_stringify (workouts s)) \<rparr>"

definition validInputs :: "jsnum list \<Rightarrow> bool" where
  "validInputs inps = list_all (\<lambda>inp. Number_isFinite inp) inps"

definition allPositive :: "jsnum list \<Rightarrow> bool" where
  "allPositive inps = list_all (\<lambda>inp. js_gt inp (Fin 0)) inps"

text \<open>
  \<open>_newWorkout\<close>. The result is how the handler completes and the state it leaves.
  \<open>return alert(...)\<close> completes normally after the alert. The two \<open>if\<close> statements
  run one after the other; each leaves the handler (\<open>Inl\<close>) or hands on the local
  variable \<open>workout\<close>, which starts as \<open>undefined\<close>.
\<close>

definition newWorkout :: "env \<Rightarrow> inputs \<Rightarrow> app \<Rightarrow> completion \<times> app" where
  "newWorkout e f s =
     (let type' = inputType f;
          distance' = inputDistance f;
          duration' = inputDuration f
      in case mapEvent s of
           None \<Rightarrow> (Throw TypeError, s)
         | Some (lat, lng) \<Rightarrow>
             (case (if type' = ''running''
                    then (let cadence' = inputCadence f
                          in if \<not> validInputs [distance', duration', cadence'] \<or>
                                \<not> allPositive [distance', duration', cadence']
                             then Inl (Normal, alert ''Inputs have to be positive numbers!'' s)
                             else (case Running e (lat, lng) distance' duration' cadence' of
                                     Inl err \<Rightarrow> Inl (Throw err, s)
                                   | Inr r \<Rightarrow> Inr (RunningObj r)))
                    else Inr (Value Undefined)) of
                Inl stop \<Rightarrow> stop
              | Inr workout1 \<Rightarrow>
                  (case (if type' = ''cycling''
                         then (let elevation' = inputElevation f
                               in if \<not> validInputs [distance', duration', elevation'] \<or>
                                     \<not> allPositive [distance', duration']
                                  then Inl (Normal, alert ''Inputs have to be positive numbers!'' s)
                                  else (case Cycling e (lat, lng) distance' duration' elevation' of
                                          Inl err \<Rightarrow> Inl (Throw err, s)
                                        | Inr c \<Rightarrow> Inr (CyclingObj c)))
                         else Inr workout1) of
                     Inl stop \<Rightarrow> stop
                   | Inr workout \<Rightarrow>
                       (let s1 = s\<lparr> workouts := workouts s @ [workout] \<rparr>
                        in case renderWorkoutMarker workout s1 of
                             Inl err \<Rightarrow> (Throw err, s1)
                           | Inr s2 \<Rightarrow>
                               (case renderWorkout workout s2 of
                                  Inl err \<Rightarrow> (Throw err, s2)
                                | Inr s3 \<Rightarrow> (Normal, setLocalStorage (hideForm s3)))))))"

text \<open>
  \<open>_getLocalStorage\<close>. \<open>getItem\<close> of a missing key is \<open>null\<close>, which \<open>JSON.parse\<close>
  reads as \<open>null\<close>. A value that is not an array has no \<open>forEach\<close>; the method is
  called from the constructor of \<open>App\<close> only, so when it raises no application object
  comes to exist.
\<close>

fun falsy :: "jsval \<Rightarrow> bool" where
  "falsy Undefined = True"
| "falsy Null = True"
| "falsy (Bool b) = (\<not> b)"
| "falsy (Num n) = (n = NaN \<or> n = Fin 0)"
| "falsy (Str s) = (s = [])"
| "falsy v = False"

fun forEach_renderWorkout :: "entry list \<Rightarrow> app \<Rightarrow> js_error + app" where
  "forEach_renderWorkout [] s = Inr s"
| "forEach_renderWorkout (work # rest) s =
     (case renderWorkout work s of
        Inl err \<Rightarrow> Inl err
      | Inr s' \<Rightarrow> forEach_renderWorkout rest s')"

definition getLocalStorage :: "app \<Rightarrow> js_error + app" where
  "getLocalStorage s =
     (let data = (case localStorage s ''workouts'' of None \<Rightarrow> Null | Some j \<Rightarrow> parse j)
      in if falsy data then Inr s
         else (case data of
                 Arr xs \<Rightarrow>
                   (let s1 = s\<lparr> workouts := map Value xs \<rparr>
                    in forEach_renderWorkout (workouts s1) s1)
               | _ \<Rightarrow> Inl TypeError))"

section \<open>Notions the statements use\<close>

text \<open>
  The last \<open>k\<close> decimal digits of \<open>n\<close>, most significant first: the last \<open>k - 1\<close>
  digits of \<open>n div 10\<close>, then the units digit.
\<close>

fun last_digits :: "nat \<Rightarrow> int \<Rightarrow> string" where
  "last_digits 0 n = []"
| "last_digits (Suc k) n = last_digits k (n div 10) @ [digit_char (n mod 10)]"

text \<open>
  JSON data: the values \<open>JSON.parse\<close> returns. There is no \<open>undefined\<close> and no
  \<open>Date\<close> among them, every Number is finite, and an object has each key once.
\<close>

fun plain :: "jsval \<Rightarrow> bool" where
  "plain Undefined = False"
| "plain Null = True"
| "plain (Bool b) = True"
| "plain (Num n) = Number_isFinite n"
| "plain (Str s) = True"
| "plain (DateObj t) = False"
| "plain (Arr xs) = list_all plain xs"
| "plain (Obj ps) = (distinct (map fst ps) \<and> list_all (\<lambda>(k, v). plain v) ps)"

text \<open>
  What \<open>_renderWorkout\<close> needs of a workout to list it: it is not \<open>undefined\<close> or \<open>null\<close>,
  and the quotient its type tag asks for is a Number.
\<close>

fun is_Number :: "jsval \<Rightarrow> bool" where
  "is_Number (Num n) = True"
| "is_Number v = False"

definition listable :: "entry \<Rightarrow> bool" where
  "listable w =
     (\<not> nullish w
      \<and> (own_prop w ''type'' = Str ''running'' \<longrightarrow> is_Number (own_prop w ''pace''))
      \<and> (own_prop w ''type'' = Str ''cycling'' \<longrightarrow> is_Number (own_prop w ''speed'')))"

text \<open>
  A workout record of the collection. In the session that created it, it is an
  instance as the constructors make it and the handler admits it: the type tag is that
  of its class and its numbers are finite. From the next session on it is the plain
  object that was read back from storage: an object of JSON data that the list can show.
\<close>

fun workout_record :: "entry \<Rightarrow> bool" where
  "workout_record (RunningObj r) =
     (running.type r = ''running'' \<and>
      list_all Number_isFinite
        [fst (coords r), snd (coords r), distance r, duration r, cadence r, pace r])"
| "workout_record (CyclingObj c) =
     (cycling.type c = ''cycling'' \<and>
      list_all Number_isFinite
        [fst (coords c), snd (coords c), distance c, duration c, elevation c, speed c])"
| "workout_record (Value (Obj ps)) = (plain (Obj ps) \<and> listable (Value (Obj ps)))"
| "workout_record (Value v) = False"

text \<open>What one element of \<open>#workouts\<close> reads back as after \<open>stringify\<close> and \<open>parse\<close>.\<close>

definition reloaded :: "entry \<Rightarrow> jsval" where
  "reloaded w = parse (case serialize (entry_value w) of None \<Rightarrow> JNull | Some j \<Rightarrow> j)"

text \<open>
  Concrete surroundings for the examples: a clock that reads 2021-10-31T12:00:00.123Z
  and one millisecond later, on a host at UTC; the page after a click on the map at
  (40.75, -74); the page right after a reload, with a given store; and a filled form
  (the hidden input of the other type is empty, which unary \<open>+\<close> reads as 0).
\<close>

definition clock_example :: env where
  "clock_example = \<lparr> new_Date = 1635681600123, Date_now = 1635681600124, LocalTZA = 0 \<rparr>"

definition page_after_click :: app where
  "page_after_click =
     \<lparr> mapEvent = Some (Fin 40.75, Fin (- 74)), workouts = [], alerts = [], markers = [],
       list_items = [], form_hidden = False, localStorage = Map.empty \<rparr>"

definition page_after_reload :: "(string \<rightharpoonup> json) \<Rightarrow> app" where
  "page_after_reload store =
     \<lparr> mapEvent = None, workouts = [], alerts = [], markers = [],
       list_items = [], form_hidden = True, localStorage = store \<rparr>"

definition form_example :: inputs where
  "form_example =
     \<lparr> inputType = ''running'', inputDistance = Fin 6, inputDuration = Fin 24,
       inputCadence = Fin 178, inputElevation = Fin 0 \<rparr>"

text \<open>
  The \<open>Running\<close> instance that submitting \<open>form_example\<close> on \<open>page_after_click\<close> at
  \<open>clock_example\<close> creates, and what it reads back as from storage.
\<close>

definition running_example :: running where
  "running_example =
     \<lparr> date = 1635681600123, id_w = ''5681600124'', clicks = 0,
       coords = (Fin 40.75, Fin (- 74)), distance = Fin 6, duration = Fin 24,
       running.type = ''running'', cadence = Fin 178, pace = Fin 4,
       running.description = ''Running on October 31'' \<rparr>"

definition reloaded_example :: jsval where
  "reloaded_example =
     Obj [(''date'', Str ''2021-10-31T12:00:00.123Z''),
          (''id'', Str ''5681600124''),
          (''clicks'', Num (Fin 0)),
          (''coords'', Arr [Num (Fin 40.75), Num (Fin (- 74))]),
          (''distance'', Num (Fin 6)),
          (''duration'', Num (Fin 24)),
          (''type'', Str ''running''),
          (''cadence'', Num (Fin 178)),
          (''pace'', Num (Fin 4)),
          (''description'', Str ''Running on October 31'')]"

text \<open>
  A \<open>Cycling\<close> instance of 20 km in 60 minutes made at the same clock, and what it
  reads back as; a running form whose quotient \<open>2 ^ 1023 / 0.5\<close> overflows.
\<close>

definition cycling_example :: cycling where
  "cycling_example =
     \<lparr> date = 1635681600123, id_w = ''5681600124'', clicks = 0,
       coords = (Fin 40.75, Fin (- 74)), distance = Fin 20, duration = Fin 60,
       type = ''cycling'', elevation = Fin 300, speed = Fin 20,
       description = ''Cycling on October 31'' \<rparr>"

definition reloaded_cycling_example :: jsval where
  "reloaded_cycling_example =
     Obj [(''date'', Str ''2021-10-31T12:00:00.123Z''),
          (''id'', Str ''5681600124''),
          (''clicks'', Num (Fin 0)),
          (''coords'', Arr [Num (Fin 40.75), Num (Fin (- 74))]),
          (''distance'', Num (Fin 20)),
          (''duration'', Num (Fin 60)),
          (''type'', Str ''cycling''),
          (''elevation'', Num (Fin 300)),
          (''speed'', Num (Fin 20)),
          (''description'', Str ''Cycling on October 31'')]"

definition running_overflow_example :: running where
  "running_overflow_example =
     running_example\<lparr> distance := Fin (1 / 2), duration := Fin (2 ^ 1023), pace := PInf \<rparr>"

definition form_overflow_example :: inputs where
  "form_overflow_example =
     \<lparr> inputType = ''running'', inputDistance = Fin (1 / 2), inputDuration = Fin (2 ^ 1023),
       inputCadence = Fin 178, inputElevation = Fin 0 \<rparr>"

section \<open>Rounding\<close>

text \<open>
  The rounded integer is within a half of the scaled value, and the scaled value times
  its power of two is the number that was given.
\<close>

lemma round_half_even_near: "\<bar>of_int (round_half_even s) - s\<bar> \<le> 1 / 2"
proof -
  have "of_int \<lfloor>s\<rfloor> \<le> s" "s < of_int \<lfloor>s\<rfloor> + 1" by linarith+
  then show ?thesis
    by (auto simp add: round_half_even_def Let_def)
qed

lemma round_half_even_ge: "of_int k \<le> s \<Longrightarrow> k \<le> round_half_even s"
proof -
  assume "of_int k \<le> s"
  then have "k \<le> \<lfloor>s\<rfloor>" by (simp add: le_floor_iff)
  then show ?thesis by (auto simp add: round_half_even_def Let_def)
qed

lemma round_half_even_zero: "0 \<le> s \<Longrightarrow> s \<le> 1 / 2 \<Longrightarrow> round_half_even s = 0"
proof -
  assume "0 \<le> s" "s \<le> 1 / 2"
  then have "\<lfloor>s\<rfloor> = 0" by (simp add: floor_eq_iff)
  with \<open>s \<le> 1 / 2\<close> show ?thesis by (auto simp add: round_half_even_def Let_def)
qed

lemma scale_down_inv:
  "0 \<le> a \<Longrightarrow> snd (scale_down e a) * 2 powi fst (scale_down e a) = a * 2 powi e
     \<and> 0 \<le> snd (scale_down e a) \<and> snd (scale_down e a) < 2 ^ 53 \<and> 0 \<le> fst (scale_down e a) - e
     \<and> (2 ^ 53 \<le> a \<longrightarrow> 2 ^ 52 \<le> snd (scale_down e a))
     \<and> (a < 2 ^ 53 \<longrightarrow> scale_down e a = (e, a))"
proof (induction e a rule: scale_down.induct)
  case (1 e a)
  show ?case
  proof (cases "2 ^ 53 \<le> a")
    case False
    with 1 show ?thesis by (simp add: scale_down.simps)
  next
    case True
    then have eq: "scale_down e a = scale_down (e + 1) (a / 2)"
      by (subst scale_down.simps) simp
    from 1(2) have "0 \<le> a / 2" by simp
    with 1(1) True have IH:
      "snd (scale_down (e + 1) (a / 2)) * 2 powi fst (scale_down (e + 1) (a / 2)) = a / 2 * 2 powi (e + 1)"
      "0 \<le> snd (scale_down (e + 1) (a / 2))" "snd (scale_down (e + 1) (a / 2)) < 2 ^ 53"
      "0 \<le> fst (scale_down (e + 1) (a / 2)) - (e + 1)"
      "2 ^ 53 \<le> a / 2 \<longrightarrow> 2 ^ 52 \<le> snd (scale_down (e + 1) (a / 2))"
      "a / 2 < 2 ^ 53 \<longrightarrow> scale_down (e + 1) (a / 2) = (e + 1, a / 2)"
      by blast+
    have p: "(2::real) powi (e + 1) = 2 * 2 powi e" by (simp add: power_int_add)
    have "2 ^ 52 \<le> snd (scale_down (e + 1) (a / 2))"
    proof (cases "2 ^ 53 \<le> a / 2")
      case True with IH(5) show ?thesis by simp
    next
      case False
      with IH(6) have "snd (scale_down (e + 1) (a / 2)) = a / 2" by simp
      with \<open>2 ^ 53 \<le> a\<close> show ?thesis by simp
    qed
    with IH p True show ?thesis unfolding eq by simp
  qed
qed

lemma scale_up_inv:
  "0 \<le> a \<Longrightarrow> a < 2 ^ 53 \<Longrightarrow> - 1074 \<le> e \<Longrightarrow>
     snd (scale_up e a) * 2 powi fst (scale_up e a) = a * 2 powi e
     \<and> 0 \<le> snd (scale_up e a) \<and> snd (scale_up e a) < 2 ^ 53 \<and> - 1074 \<le> fst (scale_up e a)
     \<and> (2 ^ 52 \<le> snd (scale_up e a) \<or> fst (scale_up e a) = - 1074)"
proof (induction e a rule: scale_up.induct)
  case (1 e a)
  show ?case
  proof (cases "a < 2 ^ 52 \<and> - 1074 < e")
    case False
    with 1(2,3,4) show ?thesis by (subst (1 2 3 4 5 6 7) scale_up.simps) auto
  next
    case True
    then have eq: "scale_up e a = scale_up (e - 1) (a * 2)"
      by (subst scale_up.simps) simp
    have p: "(2::real) powi e = 2 * 2 powi (e - 1)"
      using power_int_add [of "2::real" "e - 1" 1] by simp
    from True 1(2) have "0 \<le> a * 2" "a * 2 < 2 ^ 53" "- 1074 \<le> e - 1" by simp_all
    with 1(1) True have
      "snd (scale_up (e - 1) (a * 2)) * 2 powi fst (scale_up (e - 1) (a * 2)) = a * 2 * 2 powi (e - 1)
       \<and> 0 \<le> snd (scale_up (e - 1) (a * 2)) \<and> snd (scale_up (e - 1) (a * 2)) < 2 ^ 53
       \<and> - 1074 \<le> fst (scale_up (e - 1) (a * 2))
       \<and> (2 ^ 52 \<le> snd (scale_up (e - 1) (a * 2)) \<or> fst (scale_up (e - 1) (a * 2)) = - 1074)"
      by blast
    with p show ?thesis unfolding eq by simp
  qed
qed


lemma normalise_inv:
  assumes "0 \<le> a"
  shows "snd (normalise a) * 2 powi fst (normalise a) = a"
    and "0 \<le> snd (normalise a)" and "snd (normalise a) < 2 ^ 53"
    and "- 1074 \<le> fst (normalise a)"
    and "2 ^ 52 \<le> snd (normalise a) \<or> fst (normalise a) = - 1074"
proof -
  obtain e1 a1 where d: "scale_down 0 a = (e1, a1)" by (cases "scale_down 0 a")
  from scale_down_inv [OF assms, of 0] d
  have 1: "a1 * 2 powi e1 = a" "0 \<le> a1" "a1 < 2 ^ 53" "0 \<le> e1" by simp_all
  then have "- 1074 \<le> e1" by simp
  from scale_up_inv [OF 1(2) 1(3) this] 1(1)
  have "snd (scale_up e1 a1) * 2 powi fst (scale_up e1 a1) = a
     \<and> 0 \<le> snd (scale_up e1 a1) \<and> snd (scale_up e1 a1) < 2 ^ 53 \<and> - 1074 \<le> fst (scale_up e1 a1)
     \<and> (2 ^ 52 \<le> snd (scale_up e1 a1) \<or> fst (scale_up e1 a1) = - 1074)"
    by simp
  moreover have "normalise a = scale_up e1 a1" by (simp add: normalise_def d)
  ultimately show "snd (normalise a) * 2 powi fst (normalise a) = a"
    and "0 \<le> snd (normalise a)" and "snd (normalise a) < 2 ^ 53"
    and "- 1074 \<le> fst (normalise a)"
    and "2 ^ 52 \<le> snd (normalise a) \<or> fst (normalise a) = - 1074"
    by simp_all
qed

lemma round_double_overflow:
  assumes "2 ^ 1024 \<le> \<bar>x\<bar>"
  shows "round_double x = (if x < 0 then NInf else PInf)"
proof -
  obtain e s where n: "normalise \<bar>x\<bar> = (e, s)" by (cases "normalise \<bar>x\<bar>")
  from normalise_inv [of "\<bar>x\<bar>"] n
  have i: "s * 2 powi e = \<bar>x\<bar>" "0 \<le> s" "s < 2 ^ 53" "- 1074 \<le> e" "2 ^ 52 \<le> s \<or> e = - 1074"
    by simp_all
  have pos: "(0::real) < 2 powi e" by (simp add: zero_less_power_int)
  have e: "972 \<le> e"
  proof (rule ccontr)
    assume "\<not> 972 \<le> e"
    then have "e \<le> 971" by simp
    then have "(2::real) powi e \<le> 2 powi 971" by (intro power_int_increasing) simp_all
    then have "(2::real) powi e \<le> 2 ^ 971" by simp
    with i(2) have "s * 2 powi e \<le> s * 2 ^ 971" by (intro mult_left_mono)
    also from i(3) have "s * 2 ^ 971 < 2 ^ 53 * 2 ^ 971" by (intro mult_strict_right_mono) simp_all
    also have "(2::real) ^ 53 * 2 ^ 971 = 2 ^ 1024" by (simp only: power_add [symmetric]) simp
    finally show False using assms i(1) by simp
  qed
  with i(5) have s: "2 ^ 52 \<le> s" by auto
  then have "of_int (2 ^ 52) \<le> s" by simp
  then have "2 ^ 52 \<le> round_half_even s" by (rule round_half_even_ge)
  then have m: "(2::real) ^ 52 \<le> of_int (round_half_even s)"
    by (metis of_int_le_iff of_int_numeral of_int_power)
  from e have "(2::real) powi 972 \<le> 2 powi e" by (intro power_int_increasing) simp_all
  then have p: "(2::real) ^ 972 \<le> 2 powi e" by simp
  have "(2::real) ^ 1024 = 2 ^ 52 * 2 ^ 972" by (simp only: power_add [symmetric]) simp
  also have "\<dots> \<le> of_int (round_half_even s) * 2 powi e"
    using m p by (intro mult_mono) simp_all
  finally show ?thesis by (simp add: round_double_def n)
qed

lemma round_double_underflow:
  assumes "\<bar>x\<bar> \<le> 1 / 2 ^ 1075"
  shows "round_double x = Fin 0"
proof -
  obtain e s where n: "normalise \<bar>x\<bar> = (e, s)" by (cases "normalise \<bar>x\<bar>")
  from normalise_inv [of "\<bar>x\<bar>"] n
  have i: "s * 2 powi e = \<bar>x\<bar>" "0 \<le> s" "s < 2 ^ 53" "- 1074 \<le> e" "2 ^ 52 \<le> s \<or> e = - 1074"
    by simp_all
  from i(4) have "(2::real) powi (- 1074) \<le> 2 powi e" by (intro power_int_increasing) simp_all
  then have p: "1 / 2 ^ 1074 \<le> (2::real) powi e" by (simp add: power_int_minus_divide)
  have "s \<le> 1 / 2"
  proof (rule ccontr)
    assume "\<not> s \<le> 1 / 2"
    then have "1 / 2 < s" by simp
    have "(1::real) / 2 ^ 1075 = 1 / 2 * (1 / 2 ^ 1074)" by simp
    also have "\<dots> < s * (1 / 2 ^ 1074)" using \<open>1 / 2 < s\<close> by (intro mult_strict_right_mono) simp_all
    also have "\<dots> \<le> s * 2 powi e" using p i(2) by (intro mult_left_mono)
    finally show False using assms i(1) by simp
  qed
  with i(2) have "round_half_even s = 0" by (rule round_half_even_zero)
  then show ?thesis by (simp add: round_double_def n)
qed

lemma round_double_accurate:
  assumes r: "round_double x = Fin v" and x: "1 / 2 ^ 1022 \<le> \<bar>x\<bar>"
  shows "\<bar>v - x\<bar> \<le> \<bar>x\<bar> / 2 ^ 53"
proof -
  obtain e s where n: "normalise \<bar>x\<bar> = (e, s)" by (cases "normalise \<bar>x\<bar>")
  from normalise_inv [of "\<bar>x\<bar>"] n
  have i: "s * 2 powi e = \<bar>x\<bar>" "0 \<le> s" "s < 2 ^ 53" "- 1074 \<le> e" "2 ^ 52 \<le> s \<or> e = - 1074"
    by simp_all
  have pos: "(0::real) < 2 powi e" by (simp add: zero_less_power_int)
  define m where "m = round_half_even s"
  have s: "2 ^ 52 \<le> s"
  proof (rule ccontr)
    assume c: "\<not> 2 ^ 52 \<le> s"
    with i(5) have "e = - 1074" by simp
    then have "(2::real) powi e = 1 / 2 ^ 1074" by (simp add: power_int_minus_divide)
    with i(1) have "\<bar>x\<bar> = s * (1 / 2 ^ 1074)" by simp
    also from c have "\<dots> < 2 ^ 52 * (1 / 2 ^ 1074)" by (intro mult_strict_right_mono) simp_all
    also have "\<dots> = (1::real) / 2 ^ 1022" by simp
    finally show False using x by simp
  qed
  have "\<bar>of_int m - s\<bar> \<le> 1 / 2" unfolding m_def by (rule round_half_even_near)
  also from s have "1 / 2 \<le> s / 2 ^ 53" by simp
  finally have near: "\<bar>of_int m - s\<bar> \<le> s / 2 ^ 53" .
  have "\<bar>of_int m * 2 powi e - \<bar>x\<bar>\<bar> = \<bar>of_int m - s\<bar> * 2 powi e"
    using pos by (simp add: i(1) [symmetric] left_diff_distrib [symmetric] abs_mult)
  also have "\<dots> \<le> s / 2 ^ 53 * 2 powi e" using near pos by (intro mult_right_mono) simp_all
  also have "\<dots> = \<bar>x\<bar> / 2 ^ 53" by (simp add: i(1) [symmetric])
  finally have b: "\<bar>of_int m * 2 powi e - \<bar>x\<bar>\<bar> \<le> \<bar>x\<bar> / 2 ^ 53" .
  define w :: real where "w = of_int m * 2 powi e"
  have "round_double x = (if 2 ^ 1024 \<le> w then (if x < 0 then NInf else PInf)
                          else Fin (if x < 0 then - w else w))"
    unfolding round_double_def n w_def m_def by (simp add: Let_def)
  with r have "v = (if x < 0 then - w else w)"
    by (simp split: if_splits)
  then have "\<bar>v - x\<bar> = \<bar>w - \<bar>x\<bar>\<bar>"
    by (cases "x < 0") (simp_all add: abs_if)
  with b show ?thesis by (simp add: w_def)
qed

text \<open>
  The two divisions of \<open>distance / (duration / 60)\<close>: when neither real quotient is
  below the normal range, each result is within \<open>2 ^ - 53\<close> of it, relatively.
\<close>

lemma js_div_twice_accurate:
  "\<bar>q - t / 60\<bar> \<le> t / 60 / 2 ^ 53 \<and> \<bar>v - d / q\<bar> \<le> d / q / 2 ^ 53"
  if "round_double (t / 60) = Fin q" "js_div (Fin d) (Fin q) = Fin v"
    "1 / 2 ^ 1022 \<le> t / 60" "1 / 2 ^ 1022 \<le> d / q" for d t q v :: real
proof -
  from that(3) have "0 \<le> t / 60" by (rule order_trans [rotated]) simp
  then have a: "\<bar>t / 60\<bar> = t / 60" by simp
  have "1 / 2 ^ 1022 \<le> \<bar>t / 60\<bar>" unfolding a by (rule that(3))
  from round_double_accurate [OF that(1) this] have 1: "\<bar>q - t / 60\<bar> \<le> t / 60 / 2 ^ 53"
    unfolding a .
  from that(4) have "0 < d / q" by (rule less_le_trans [rotated]) simp
  then have b: "\<bar>d / q\<bar> = d / q" by (rule abs_of_pos)
  from \<open>0 < d / q\<close> have "q \<noteq> 0" by auto
  with that(2) have r: "round_double (d / q) = Fin v" by simp
  have "1 / 2 ^ 1022 \<le> \<bar>d / q\<bar>" unfolding b by (rule that(4))
  from round_double_accurate [OF r this] have "\<bar>v - d / q\<bar> \<le> d / q / 2 ^ 53"
    unfolding b .
  with 1 show ?thesis ..
qed

text \<open>
  Division on a few operands. 24 / 6 is exact. The doubles nearest to 0.3 and 0.1 are
  \<open>5404319552844595 / 2 ^ 54\<close> and \<open>3602879701896397 / 2 ^ 55\<close>, and their quotient is
  rounded to \<open>3 - 1 / 2 ^ 51\<close>, which prints as 2.9999999999999996. The smallest
  positive double is \<open>1 / 2 ^ 1074\<close>: dividing \<open>2 ^ 1000\<close> by it overflows, and
  dividing it by 60 underflows to zero.
\<close>

lemma round_double_small:
  "round_double 1 = Fin 1 \<and> round_double 4 = Fin 4 \<and> round_double 20 = Fin 20"
  by (simp add: round_double_def normalise_def scale_down.simps scale_up.simps
      round_half_even_def)

lemma js_div_exact_example: "js_div (Fin 24) (Fin 6) = Fin 4"
  using round_double_small by simp

lemma round_double_decimal_example:
  "round_double (3 / 10) = Fin (5404319552844595 / 2 ^ 54)
   \<and> round_double (1 / 10) = Fin (3602879701896397 / 2 ^ 55)"
  by (simp add: round_double_def normalise_def scale_down.simps scale_up.simps
      round_half_even_def)

lemma js_div_rounded_example:
  "js_div (Fin (5404319552844595 / 2 ^ 54)) (Fin (3602879701896397 / 2 ^ 55)) =
     Fin (3 - 1 / 2 ^ 51)"
  by (simp add: round_double_def normalise_def scale_down.simps scale_up.simps
      round_half_even_def)

lemma js_div_overflow_example: "js_div (Fin (2 ^ 1000)) (Fin (1 / 2 ^ 1074)) = PInf"
  by (simp add: round_double_overflow)

lemma js_div_underflow_example: "js_div (Fin (1 / 2 ^ 1074)) (Fin 60) = Fin 0"
  by (simp add: round_double_underflow)

text \<open>
  The quotient of two positive doubles is never negative, never \<open>NaN\<close>: it is a finite
  number from 0 on, or \<open>Infinity\<close>.
\<close>

lemma round_double_nonneg:
  assumes "0 \<le> x"
  shows "round_double x = PInf \<or> (\<exists>v. round_double x = Fin v \<and> 0 \<le> v)"
proof -
  obtain e s where n: "normalise \<bar>x\<bar> = (e, s)" by (cases "normalise \<bar>x\<bar>")
  from normalise_inv(2) [of "\<bar>x\<bar>"] n have "0 \<le> s" by simp
  then have "of_int 0 \<le> s" by simp
  then have "0 \<le> round_half_even s" by (rule round_half_even_ge)
  then have v: "0 \<le> (of_int (round_half_even s) :: real) * 2 powi e" by simp
  define top :: real where "top = 2 ^ 1024"
  have "round_double x =
     (if top \<le> of_int (round_half_even s) * 2 powi e then (if x < 0 then NInf else PInf)
      else Fin (if x < 0 then - (of_int (round_half_even s) * 2 powi e)
                else of_int (round_half_even s) * 2 powi e))"
    unfolding round_double_def n top_def by (simp add: Let_def)
  with assms v show ?thesis by simp
qed

section \<open>Dates and strings\<close>

lemma div_lower: "0 < k \<Longrightarrow> k * (a div k) \<le> (a::int)"
  using mult_div_mod_eq [of k a] pos_mod_sign [of k a] by linarith

lemma div_upper: "0 < k \<Longrightarrow> (a::int) < k * (a div k) + k"
  using mult_div_mod_eq [of k a] pos_mod_bound [of k a] by linarith

lemma DayFromYear_upper: "400 * DayFromYear y \<le> 146097 * y - 287810501"
proof -
  define a where "a = (y - 1969) div 4"
  define b where "b = (y - 1901) div 100"
  define c where "c = (y - 1601) div 400"
  have "4 * a \<le> y - 1969"
    unfolding a_def by (rule div_lower) simp
  moreover have "y - 1901 < 100 * b + 100"
    unfolding b_def by (rule div_upper) simp
  moreover have "400 * c \<le> y - 1601"
    unfolding c_def by (rule div_lower) simp
  moreover have "DayFromYear y = 365 * y - 719050 + a - b + c"
    by (simp add: DayFromYear_def a_def b_def c_def)
  ultimately show ?thesis by linarith
qed

lemma DayFromYear_lower: "146097 * y - 287811596 \<le> 400 * DayFromYear y"
proof -
  define a where "a = (y - 1969) div 4"
  define b where "b = (y - 1901) div 100"
  define c where "c = (y - 1601) div 400"
  have "y - 1969 < 4 * a + 4"
    unfolding a_def by (rule div_upper) simp
  moreover have "100 * b \<le> y - 1901"
    unfolding b_def by (rule div_lower) simp
  moreover have "y - 1601 < 400 * c + 400"
    unfolding c_def by (rule div_upper) simp
  moreover have "DayFromYear y = 365 * y - 719050 + a - b + c"
    by (simp add: DayFromYear_def a_def b_def c_def)
  ultimately show ?thesis by linarith
qed

lemma DayFromYear_less: "y < y' \<Longrightarrow> DayFromYear y < DayFromYear y'"
  using DayFromYear_upper [of y] DayFromYear_lower [of y'] by linarith

text \<open>
  \<open>YearFromTime\<close> is the year of the language definition: the time lies in it, and it
  is the largest year that starts at or before the time.
\<close>

lemma YearFromTime_bounds:
  "DayFromYear (YearFromTime t) \<le> Day t \<and> Day t < DayFromYear (YearFromTime t + 1)"
proof -
  define d where "d = Day t"
  define q where "q = (d * 400) div 146097"
  define y where "y = 1970 + q"
  have q1: "146097 * q \<le> d * 400"
    unfolding q_def by (rule div_lower) simp
  have q2: "d * 400 < 146097 * q + 146097"
    unfolding q_def by (rule div_upper) simp
  have yq: "146097 * y = 146097 * q + 287811090"
    by (simp add: y_def)
  from DayFromYear_upper [of "y - 1"]
  have "400 * DayFromYear (y - 1) \<le> 146097 * y - 287956598"
    by (simp add: algebra_simps)
  with yq q1 have lo: "DayFromYear (y - 1) \<le> d"
    by linarith
  from DayFromYear_lower [of "y + 2"]
  have "146097 * y - 287519402 \<le> 400 * DayFromYear (y + 2)"
    by (simp add: algebra_simps)
  with yq q2 have hi: "d < DayFromYear (y + 2)"
    by linarith
  have "YearFromTime t = (if d < DayFromYear y then y - 1
         else if DayFromYear (y + 1) \<le> d then y + 1 else y)"
    by (simp add: YearFromTime_def Let_def d_def y_def q_def)
  with lo hi show ?thesis
    unfolding d_def [symmetric] by (simp add: add.commute)
qed

lemma YearFromTime_largest: "DayFromYear y \<le> Day t \<longleftrightarrow> y \<le> YearFromTime t"
proof
  assume a: "DayFromYear y \<le> Day t"
  show "y \<le> YearFromTime t"
  proof (rule ccontr)
    assume "\<not> y \<le> YearFromTime t"
    then have "YearFromTime t + 1 \<le> y" by simp
    then have "DayFromYear (YearFromTime t + 1) \<le> DayFromYear y"
      using DayFromYear_less [of "YearFromTime t + 1" y]
      by (cases "YearFromTime t + 1 = y") auto
    with a YearFromTime_bounds [of t] show False by linarith
  qed
next
  assume "y \<le> YearFromTime t"
  then have "DayFromYear y \<le> DayFromYear (YearFromTime t)"
    using DayFromYear_less [of y "YearFromTime t"]
    by (cases "y = YearFromTime t") auto
  with YearFromTime_bounds [of t] show "DayFromYear y \<le> Day t" by linarith
qed

lemma div_succ:
  assumes "0 < k"
  shows "(a + 1) div k = a div k + (if (a + 1) mod k = 0 then 1 else 0 :: int)"
proof (cases "a mod k + 1 = k")
  case True
  have "a + 1 = k * (a div k) + k"
    using mult_div_mod_eq [of k a] True by linarith
  then have e: "a + 1 = k * (a div k + 1) + 0"
    by (simp add: algebra_simps)
  from assms have "(0::int) \<le> 0" "0 < k" by simp_all
  from int_div_pos_eq [OF e this] int_mod_pos_eq [OF e this]
  show ?thesis by simp
next
  case False
  with pos_mod_bound [OF assms, of a] have lt: "a mod k + 1 < k" by simp
  have nn: "0 \<le> a mod k + 1" using pos_mod_sign [OF assms, of a] by simp
  have e: "a + 1 = k * (a div k) + (a mod k + 1)"
    using mult_div_mod_eq [of k a] by simp
  from int_div_pos_eq [OF e nn lt] int_mod_pos_eq [OF e nn lt]
    pos_mod_sign [OF assms, of a]
  show ?thesis by simp
qed

lemma leap_terms:
  "((y::int) - 1968) div 4 = (y - 1969) div 4 + (if y mod 4 = 0 then 1 else 0)"
  "(y - 1900) div 100 = (y - 1901) div 100 + (if y mod 100 = 0 then 1 else 0)"
  "(y - 1600) div 400 = (y - 1601) div 400 + (if y mod 400 = 0 then 1 else 0)"
proof -
  have "(y - 1968) mod 4 = y mod 4"
    using mod_mult_self2 [of y 4 "- 492"] by simp
  with div_succ [of 4 "y - 1969"]
  show "(y - 1968) div 4 = (y - 1969) div 4 + (if y mod 4 = 0 then 1 else 0)"
    by simp
  have "(y - 1900) mod 100 = y mod 100"
    using mod_mult_self2 [of y 100 "- 19"] by simp
  with div_succ [of 100 "y - 1901"]
  show "(y - 1900) div 100 = (y - 1901) div 100 + (if y mod 100 = 0 then 1 else 0)"
    by simp
  have "(y - 1600) mod 400 = y mod 400"
    using mod_mult_self2 [of y 400 "- 4"] by simp
  with div_succ [of 400 "y - 1601"]
  show "(y - 1600) div 400 = (y - 1601) div 400 + (if y mod 400 = 0 then 1 else 0)"
    by simp
qed

text \<open>A year is as long as \<open>DaysInYear\<close> says, and the day within the year lies in it.\<close>

lemma DayFromYear_step: "DayFromYear (y + 1) = DayFromYear y + DaysInYear y"
proof -
  have d1: "y mod 100 = 0 \<Longrightarrow> y mod 4 = 0"
    using mod_mod_cancel [of 4 100 y] by simp
  have d2: "y mod 400 = 0 \<Longrightarrow> y mod 100 = 0"
    using mod_mod_cancel [of 100 400 y] by simp
  have "DayFromYear (y + 1) =
          365 * (y - 1969) + (y - 1968) div 4 - (y - 1900) div 100 + (y - 1600) div 400"
    by (simp add: DayFromYear_def)
  then show ?thesis
    using d1 d2 by (simp add: leap_terms DayFromYear_def DaysInYear_def)
qed

lemma DayWithinYear_range:
  "0 \<le> DayWithinYear t \<and> DayWithinYear t < DaysInYear (YearFromTime t)"
  using YearFromTime_bounds [of t] DayFromYear_step [of "YearFromTime t"]
  by (simp add: DayWithinYear_def)

lemma DateFromTime_range: "1 \<le> DateFromTime t \<and> DateFromTime t \<le> 31"
proof -
  define d where "d = DayWithinYear t"
  define l where "l = InLeapYear t"
  from DayWithinYear_range [of t] have d: "0 \<le> d" "d < 365 + l"
    by (auto simp add: d_def l_def InLeapYear_def DaysInYear_def split: if_splits)
  have l: "l = 0 \<or> l = 1"
    by (simp add: l_def InLeapYear_def)
  have m: "MonthFromTime t =
     (if d < 31 then 0 else if d < 59 + l then 1 else if d < 90 + l then 2
      else if d < 120 + l then 3 else if d < 151 + l then 4 else if d < 181 + l then 5
      else if d < 212 + l then 6 else if d < 243 + l then 7 else if d < 273 + l then 8
      else if d < 304 + l then 9 else if d < 334 + l then 10 else 11)"
    by (simp add: MonthFromTime_def d_def l_def Let_def)
  have "DateFromTime t =
     (let m = MonthFromTime t
      in if m = 0 then d + 1 else if m = 1 then d - 30 else if m = 2 then d - 58 - l
         else if m = 3 then d - 89 - l else if m = 4 then d - 119 - l
         else if m = 5 then d - 150 - l else if m = 6 then d - 180 - l
         else if m = 7 then d - 211 - l else if m = 8 then d - 242 - l
         else if m = 9 then d - 272 - l else if m = 10 then d - 303 - l
         else d - 333 - l)"
    by (simp add: DateFromTime_def d_def l_def Let_def)
  with d l show ?thesis
    unfolding m Let_def by (auto split: if_splits)
qed

lemma MonthFromTime_range: "0 \<le> MonthFromTime t \<and> MonthFromTime t < 12"
  by (simp add: MonthFromTime_def Let_def)

lemma getMonth_range: "0 \<le> getMonth tza t \<and> getMonth tza t < int (length months)"
  using MonthFromTime_range [of "t + tza"] by (simp add: getMonth_def months_def)

lemma toUpperCase_r: "toUpperCase CHR ''r'' = CHR ''R''"
  by (simp add: toUpperCase_def)

lemma toUpperCase_c: "toUpperCase CHR ''c'' = CHR ''C''"
  by (simp add: toUpperCase_def)

lemma setDescription_Cons:
  "setDescription tza (ch # rest) t =
     Inr (toUpperCase ch # rest @ '' on '' @ months ! nat (getMonth tza t) @ '' ''
          @ Number_toString (getDate tza t))"
  using getMonth_range [of tza t] by (simp add: setDescription_def slice_def)

lemma length_last_digits: "length (last_digits k n) = k"
  by (induction k arbitrary: n) auto

lemma digits_nonempty: "digits n \<noteq> []"
  by (subst digits.simps) simp

lemma length_digits_ge: "10 ^ k \<le> n \<Longrightarrow> k < length (digits n)"
proof (induction k arbitrary: n)
  case 0
  then show ?case using digits_nonempty [of n] by (cases "digits n") auto
next
  case (Suc k)
  have one: "(1::int) \<le> 10 ^ k" by (rule one_le_power) simp
  from Suc.prems have ten: "10 * 10 ^ k \<le> n" by simp
  have "(10::int) ^ k = (10 * 10 ^ k) div 10" by simp
  also from ten have "\<dots> \<le> n div 10" by (rule zdiv_mono1) simp
  finally have "k < length (digits (n div 10))" by (rule Suc.IH)
  moreover from one ten have "\<not> n < 10" by linarith
  then have "digits n = digits (n div 10) @ [digit_char (n mod 10)]"
    by (subst digits.simps) simp
  ultimately show ?case by simp
qed

lemma drop_digits_last:
  "0 \<le> n \<Longrightarrow> k \<le> length (digits n) \<Longrightarrow>
   drop (length (digits n) - k) (digits n) = last_digits k n"
proof (induction k arbitrary: n)
  case 0
  then show ?case by simp
next
  case (Suc k)
  show ?case
  proof (cases "n < 10")
    case True
    then have d: "digits n = [digit_char n]" by (subst digits.simps) simp
    with Suc.prems have "k = 0" by simp
    with d True Suc.prems show ?thesis by simp
  next
    case False
    then have d: "digits n = digits (n div 10) @ [digit_char (n mod 10)]"
      by (subst digits.simps) simp
    from Suc.prems d have k: "k \<le> length (digits (n div 10))" by simp
    from Suc.prems have "0 \<le> n div 10" by simp
    from Suc.IH [OF this k] k d show ?thesis by simp
  qed
qed

lemma slice_last_digits:
  assumes "10 ^ 9 \<le> n"
  shows "slice (- 10) (Number_toString n) = last_digits 10 n"
proof -
  from assms have n0: "0 \<le> n" by simp
  from assms have len: "9 < length (digits n)" by (rule length_digits_ge)
  then have l10: "10 \<le> length (digits n)" by simp
  have "slice (- 10) (digits n) = drop (length (digits n) - 10) (digits n)"
    using l10 by (simp add: slice_def Let_def nat_diff_distrib')
  with drop_digits_last [OF n0 l10] n0 show ?thesis
    by (simp add: Number_toString_def)
qed

lemma Number_toString_example: "Number_toString 1635681600124 = ''1635681600124''"
  by (simp add: Number_toString_def digits.simps digit_char_def)

lemma calendar_example: "getMonth 0 1635681600123 = 9 \<and> getDate 0 1635681600123 = 31"
  by (simp add: getMonth_def getDate_def MonthFromTime_def DateFromTime_def DayWithinYear_def
      InLeapYear_def DaysInYear_def YearFromTime_def DayFromYear_def Day_def msPerDay_def)

lemma toISOString_example: "toISOString 1635681600123 = ''2021-10-31T12:00:00.123Z''"
  by (simp add: toISOString_def YearFromTime_def Day_def msPerDay_def DayFromYear_def
      MonthFromTime_def DateFromTime_def DayWithinYear_def InLeapYear_def DaysInYear_def
      pad_def digits.simps digit_char_def)

section \<open>The constructors\<close>

lemma Running_Inr:
  "Running e c d t cad =
     Inr \<lparr> date = new_Date e, id_w = slice (- 10) (Number_toString (Date_now e)), clicks = 0,
           coords = c, distance = d, duration = t,
           running.type = ''running'', cadence = cad, pace = js_div t d,
           running.description =
             ''Running on '' @ months ! nat (getMonth (LocalTZA e) (new_Date e)) @ '' ''
             @ Number_toString (getDate (LocalTZA e) (new_Date e)) \<rparr>"
  by (simp add: Running_def Workout_def calcPace_def setDescription_Cons toUpperCase_r)

lemma Cycling_Inr:
  "Cycling e c d t el =
     Inr \<lparr> date = new_Date e, id_w = slice (- 10) (Number_toString (Date_now e)), clicks = 0,
           coords = c, distance = d, duration = t,
           type = ''cycling'', elevation = el, speed = js_div d (js_div t (Fin 60)),
           description =
             ''Cycling on '' @ months ! nat (getMonth (LocalTZA e) (new_Date e)) @ '' ''
             @ Number_toString (getDate (LocalTZA e) (new_Date e)) \<rparr>"
  by (simp add: Cycling_def Workout_def calcSpeed_def setDescription_Cons toUpperCase_c)

lemma Running_example:
  "Running clock_example (Fin 40.75, Fin (- 74)) (Fin 6) (Fin 24) (Fin 178) = Inr running_example"
proof -
  have i: "slice (- 10) (Number_toString 1635681600124) = ''5681600124''"
    by (simp add: Number_toString_example slice_def)
  have d: "Number_toString 31 = ''31''"
    by (simp add: Number_toString_def digits.simps digit_char_def)
  have m: "months ! 9 = ''October''"
    by (simp add: months_def)
  show ?thesis
    by (simp only: Running_Inr js_div_exact_example)
       (simp add: clock_example_def running_example_def calendar_example i d m)
qed

lemma Cycling_example:
  "Cycling clock_example (Fin 40.75, Fin (- 74)) (Fin 20) (Fin 60) (Fin 300) = Inr cycling_example"
proof -
  have i: "slice (- 10) (Number_toString 1635681600124) = ''5681600124''"
    by (simp add: Number_toString_example slice_def)
  have d: "Number_toString 31 = ''31''"
    by (simp add: Number_toString_def digits.simps digit_char_def)
  have m: "months ! 9 = ''October''"
    by (simp add: months_def)
  have q: "js_div (Fin 20) (js_div (Fin 60) (Fin 60)) = Fin 20"
    using round_double_small by simp
  show ?thesis
    by (simp only: Cycling_Inr q)
       (simp add: clock_example_def cycling_example_def calendar_example i d m)
qed

lemma Running_overflow_example:
  "Running clock_example (Fin 40.75, Fin (- 74)) (Fin (1 / 2)) (Fin (2 ^ 1023)) (Fin 178) =
     Inr running_overflow_example"
proof -
  have i: "slice (- 10) (Number_toString 1635681600124) = ''5681600124''"
    by (simp add: Number_toString_example slice_def)
  have d: "Number_toString 31 = ''31''"
    by (simp add: Number_toString_def digits.simps digit_char_def)
  have m: "months ! 9 = ''October''"
    by (simp add: months_def)
  have q: "js_div (Fin (2 ^ 1023)) (Fin (1 / 2)) = PInf"
    by (simp add: round_double_overflow)
  show ?thesis
    by (simp only: Running_Inr q)
       (simp add: clock_example_def running_overflow_example_def running_example_def
          calendar_example i d m)
qed

text \<open>
  A cycling duration of \<open>1 / 2 ^ 1074\<close> minutes is above 0, and \<open>duration / 60\<close> is
  then zero: \<open>calcSpeed\<close> divides by zero and the speed is \<open>Infinity\<close>.
\<close>

lemma calcSpeed_underflow_example:
  "js_gt (Fin (1 / 2 ^ 1074)) (Fin 0)
   \<and> map_sum id speed (Cycling e c (Fin 1) (Fin (1 / 2 ^ 1074)) el) = Inr PInf"
  by (simp add: Cycling_Inr round_double_underflow)

section \<open>The submit handler, case by case\<close>

lemma newWorkout_no_mapEvent:
  "mapEvent s = None \<Longrightarrow> newWorkout e f s = (Throw TypeError, s)"
  by (simp add: newWorkout_def)

lemma newWorkout_running_rejected:
  assumes "mapEvent s = Some ll" and "inputType f = ''running''"
    and "\<not> validInputs [inputDistance f, inputDuration f, inputCadence f]
         \<or> \<not> allPositive [inputDistance f, inputDuration f, inputCadence f]"
  shows "newWorkout e f s = (Normal, alert ''Inputs have to be positive numbers!'' s)"
  using assms by (cases ll) (auto simp add: newWorkout_def)

lemma newWorkout_cycling_rejected:
  assumes "mapEvent s = Some ll" and "inputType f = ''cycling''"
    and "\<not> validInputs [inputDistance f, inputDuration f, inputElevation f]
         \<or> \<not> allPositive [inputDistance f, inputDuration f]"
  shows "newWorkout e f s = (Normal, alert ''Inputs have to be positive numbers!'' s)"
  using assms by (cases ll) (auto simp add: newWorkout_def)

lemma newWorkout_other_type:
  assumes "mapEvent s = Some ll" and "inputType f \<noteq> ''running''"
    and "inputType f \<noteq> ''cycling''"
  shows "newWorkout e f s =
           (Throw TypeError, s\<lparr> workouts := workouts s @ [Value Undefined] \<rparr>)"
  using assms by (cases ll) (simp add: newWorkout_def renderWorkoutMarker_def nullish_def)

lemma own_prop_running:
  "own_prop (RunningObj r) ''type'' = Str (running.type r)"
  "own_prop (RunningObj r) ''coords'' = Arr [Num (fst (coords r)), Num (snd (coords r))]"
  "own_prop (RunningObj r) ''description'' = Str (running.description r)"
  "own_prop (RunningObj r) ''id'' = Str (id_w r)"
  "own_prop (RunningObj r) ''distance'' = Num (distance r)"
  "own_prop (RunningObj r) ''duration'' = Num (duration r)"
  "own_prop (RunningObj r) ''pace'' = Num (pace r)"
  "own_prop (RunningObj r) ''cadence'' = Num (cadence r)"
  by (simp_all add: own_prop_def workout_props_def)

lemma own_prop_cycling:
  "own_prop (CyclingObj c) ''type'' = Str (cycling.type c)"
  "own_prop (CyclingObj c) ''coords'' = Arr [Num (fst (coords c)), Num (snd (coords c))]"
  "own_prop (CyclingObj c) ''description'' = Str (cycling.description c)"
  "own_prop (CyclingObj c) ''id'' = Str (id_w c)"
  "own_prop (CyclingObj c) ''distance'' = Num (distance c)"
  "own_prop (CyclingObj c) ''duration'' = Num (duration c)"
  "own_prop (CyclingObj c) ''speed'' = Num (speed c)"
  "own_prop (CyclingObj c) ''elevation'' = Num (elevation c)"
  by (simp_all add: own_prop_def workout_props_def)

lemma renderWorkoutMarker_instance:
  "renderWorkoutMarker (RunningObj r) s =
     Inr (s\<lparr> markers := markers s @
            [\<lparr> marker_coords = Arr [Num (fst (coords r)), Num (snd (coords r))],
               popup_type = Str (running.type r),
               popup_description = Str (running.description r) \<rparr>] \<rparr>)"
  "renderWorkoutMarker (CyclingObj c) s =
     Inr (s\<lparr> markers := markers s @
            [\<lparr> marker_coords = Arr [Num (fst (coords c)), Num (snd (coords c))],
               popup_type = Str (cycling.type c),
               popup_description = Str (cycling.description c) \<rparr>] \<rparr>)"
  by (simp_all add: renderWorkoutMarker_def nullish_def own_prop_running own_prop_cycling)

lemma renderWorkout_running:
  "running.type r = ''running'' \<Longrightarrow>
   renderWorkout (RunningObj r) s =
     Inr (s\<lparr> list_items :=
            \<lparr> li_type = Str ''running'', li_id = Str (id_w r),
              li_description = Str (running.description r),
              li_distance = Num (distance r), li_duration = Num (duration r),
              li_details = Some (pace r, Num (cadence r)) \<rparr> # list_items s \<rparr>)"
  by (simp add: renderWorkout_def nullish_def own_prop_running)

lemma renderWorkout_cycling:
  "cycling.type c = ''cycling'' \<Longrightarrow>
   renderWorkout (CyclingObj c) s =
     Inr (s\<lparr> list_items :=
            \<lparr> li_type = Str ''cycling'', li_id = Str (id_w c),
              li_description = Str (cycling.description c),
              li_distance = Num (distance c), li_duration = Num (duration c),
              li_details = Some (speed c, Num (elevation c)) \<rparr> # list_items s \<rparr>)"
  by (simp add: renderWorkout_def nullish_def own_prop_cycling)

lemma newWorkout_running_accepted:
  assumes "mapEvent s = Some (lat, lng)" and "inputType f = ''running''"
    and "validInputs [inputDistance f, inputDuration f, inputCadence f]"
    and "allPositive [inputDistance f, inputDuration f, inputCadence f]"
    and "Running e (lat, lng) (inputDistance f) (inputDuration f) (inputCadence f) = Inr r"
  shows "newWorkout e f s =
     (Normal,
      s\<lparr> workouts := workouts s @ [RunningObj r],
         markers := markers s @
            [\<lparr> marker_coords = Arr [Num lat, Num lng], popup_type = Str ''running'',
               popup_description = Str (running.description r) \<rparr>],
         list_items :=
            \<lparr> li_type = Str ''running'', li_id = Str (id_w r),
              li_description = Str (running.description r),
              li_distance = Num (inputDistance f), li_duration = Num (inputDuration f),
              li_details = Some (pace r, Num (inputCadence f)) \<rparr> # list_items s,
         form_hidden := True,
         localStorage := (localStorage s)
            (''workouts'' \<mapsto> JSON_stringify (workouts s @ [RunningObj r])) \<rparr>)"
proof -
  from assms(5) have r: "running.type r = ''running''" "coords r = (lat, lng)"
    "distance r = inputDistance f" "duration r = inputDuration f" "cadence r = inputCadence f"
    by (auto simp add: Running_Inr)
  from assms(1-4) show ?thesis
    by (simp add: newWorkout_def assms(5) renderWorkoutMarker_instance renderWorkout_running r
        hideForm_def setLocalStorage_def Let_def)
qed

lemma newWorkout_cycling_accepted:
  assumes "mapEvent s = Some (lat, lng)" and "inputType f = ''cycling''"
    and "validInputs [inputDistance f, inputDuration f, inputElevation f]"
    and "allPositive [inputDistance f, inputDuration f]"
    and "Cycling e (lat, lng) (inputDistance f) (inputDuration f) (inputElevation f) = Inr c"
  shows "newWorkout e f s =
     (Normal,
      s\<lparr> workouts := workouts s @ [CyclingObj c],
         markers := markers s @
            [\<lparr> marker_coords = Arr [Num lat, Num lng], popup_type = Str ''cycling'',
               popup_description = Str (cycling.description c) \<rparr>],
         list_items :=
            \<lparr> li_type = Str ''cycling'', li_id = Str (id_w c),
              li_description = Str (cycling.description c),
              li_distance = Num (inputDistance f), li_duration = Num (inputDuration f),
              li_details = Some (speed c, Num (inputElevation f)) \<rparr> # list_items s,
         form_hidden := True,
         localStorage := (localStorage s)
            (''workouts'' \<mapsto> JSON_stringify (workouts s @ [CyclingObj c])) \<rparr>)"
proof -
  from assms(5) have c: "cycling.type c = ''cycling''" "coords c = (lat, lng)"
    "distance c = inputDistance f" "duration c = inputDuration f"
    "elevation c = inputElevation f"
    by (auto simp add: Cycling_Inr)
  from assms(1-4) show ?thesis
    by (simp add: newWorkout_def assms(5) renderWorkoutMarker_instance renderWorkout_cycling c
        hideForm_def setLocalStorage_def Let_def)
qed

text \<open>
  What the handler can have appended. The five cases above are all there are; an
  instance is appended in the two accepted ones only, after the guard.
\<close>

lemma newWorkout_appended:
  assumes "workouts (snd (newWorkout e f s)) = workouts s @ [w]"
  shows "(\<exists>lat lng r. w = RunningObj r \<and> mapEvent s = Some (lat, lng)
            \<and> validInputs [inputDistance f, inputDuration f, inputCadence f]
            \<and> allPositive [inputDistance f, inputDuration f, inputCadence f]
            \<and> Running e (lat, lng) (inputDistance f) (inputDuration f) (inputCadence f) = Inr r)
       \<or> (\<exists>lat lng c. w = CyclingObj c \<and> mapEvent s = Some (lat, lng)
            \<and> validInputs [inputDistance f, inputDuration f, inputElevation f]
            \<and> allPositive [inputDistance f, inputDuration f]
            \<and> Cycling e (lat, lng) (inputDistance f) (inputDuration f) (inputElevation f) = Inr c)
       \<or> w = Value Undefined"
proof (cases "mapEvent s")
  case None
  with assms show ?thesis by (simp add: newWorkout_no_mapEvent)
next
  case (Some ll)
  obtain lat lng where ll: "ll = (lat, lng)" by (cases ll)
  consider (run) "inputType f = ''running''" | (cyc) "inputType f = ''cycling''"
    | (other) "inputType f \<noteq> ''running''" "inputType f \<noteq> ''cycling''"
    by blast
  then show ?thesis
  proof cases
    case run
    show ?thesis
    proof (cases "validInputs [inputDistance f, inputDuration f, inputCadence f]
                  \<and> allPositive [inputDistance f, inputDuration f, inputCadence f]")
      case True
      obtain r where r: "Running e (lat, lng) (inputDistance f) (inputDuration f)
                           (inputCadence f) = Inr r"
        by (simp add: Running_Inr)
      from True Some ll run r have
        "workouts (snd (newWorkout e f s)) = workouts s @ [RunningObj r]"
        by (simp add: newWorkout_running_accepted [where r = r])
      with assms have "w = RunningObj r" by simp
      with True Some ll r show ?thesis by blast
    next
      case False
      with Some run have
        "newWorkout e f s = (Normal, alert ''Inputs have to be positive numbers!'' s)"
        by (intro newWorkout_running_rejected) auto
      with assms show ?thesis by (simp add: alert_def)
    qed
  next
    case cyc
    show ?thesis
    proof (cases "validInputs [inputDistance f, inputDuration f, inputElevation f]
                  \<and> allPositive [inputDistance f, inputDuration f]")
      case True
      obtain c where c: "Cycling e (lat, lng) (inputDistance f) (inputDuration f)
                           (inputElevation f) = Inr c"
        by (simp add: Cycling_Inr)
      from True Some ll cyc c have
        "workouts (snd (newWorkout e f s)) = workouts s @ [CyclingObj c]"
        by (simp add: newWorkout_cycling_accepted [where c = c])
      with assms have "w = CyclingObj c" by simp
      with True Some ll c show ?thesis by blast
    next
      case False
      with Some cyc have
        "newWorkout e f s = (Normal, alert ''Inputs have to be positive numbers!'' s)"
        by (intro newWorkout_cycling_rejected) auto
      with assms show ?thesis by (simp add: alert_def)
    qed
  next
    case other
    with Some assms show ?thesis by (simp add: newWorkout_other_type)
  qed
qed

lemma isFinite_Fin: "Number_isFinite n \<Longrightarrow> \<exists>x. n = Fin x"
  by (cases n) auto

lemma newWorkout_appended_running:
  assumes "workouts (snd (newWorkout e f s)) = workouts s @ [RunningObj r]"
  shows "\<exists>d t. distance r = Fin d \<and> 0 < d \<and> duration r = Fin t \<and> 0 < t
               \<and> pace r = round_double (t / d)"
proof -
  from newWorkout_appended [OF assms] obtain lat lng where
    v: "validInputs [inputDistance f, inputDuration f, inputCadence f]"
    and p: "allPositive [inputDistance f, inputDuration f, inputCadence f]"
    and r: "Running e (lat, lng) (inputDistance f) (inputDuration f) (inputCadence f) = Inr r"
    by auto
  from r have rr: "distance r = inputDistance f" "duration r = inputDuration f"
    "pace r = js_div (inputDuration f) (inputDistance f)"
    by (auto simp add: Running_Inr)
  from v p obtain d t where "inputDistance f = Fin d" "inputDuration f = Fin t"
    "0 < d" "0 < t"
    by (auto simp add: validInputs_def allPositive_def dest!: isFinite_Fin)
  with rr show ?thesis by simp
qed

lemma newWorkout_appended_cycling:
  assumes "workouts (snd (newWorkout e f s)) = workouts s @ [CyclingObj c]"
  shows "\<exists>d t. distance c = Fin d \<and> 0 < d \<and> duration c = Fin t \<and> 0 < t
               \<and> speed c = js_div (Fin d) (round_double (t / 60))"
proof -
  from newWorkout_appended [OF assms] obtain lat lng where
    v: "validInputs [inputDistance f, inputDuration f, inputElevation f]"
    and p: "allPositive [inputDistance f, inputDuration f]"
    and c: "Cycling e (lat, lng) (inputDistance f) (inputDuration f) (inputElevation f) = Inr c"
    by auto
  from c have cc: "distance c = inputDistance f" "duration c = inputDuration f"
    "speed c = js_div (inputDistance f) (js_div (inputDuration f) (Fin 60))"
    by (auto simp add: Cycling_Inr)
  from v p obtain d t where "inputDistance f = Fin d" "inputDuration f = Fin t"
    "0 < d" "0 < t"
    by (auto simp add: validInputs_def allPositive_def dest!: isFinite_Fin)
  with cc show ?thesis by simp
qed

text \<open>
  An instance the handler appends is a workout record in the sense of
  \<open>workout_record\<close>, given that the map reported finite coordinates and that the
  quotient the constructor stored is finite.
\<close>

lemma newWorkout_appends_workout_record:
  assumes "workouts (snd (newWorkout e f s)) = workouts s @ [w]"
    and "mapEvent s = Some (lat, lng)" and "Number_isFinite lat" and "Number_isFinite lng"
  shows "(\<forall>r. w = RunningObj r \<longrightarrow> Number_isFinite (pace r) \<longrightarrow> workout_record w)
       \<and> (\<forall>c. w = CyclingObj c \<longrightarrow> Number_isFinite (speed c) \<longrightarrow> workout_record w)"
proof (intro conjI allI impI)
  fix r assume w: "w = RunningObj r" and fin: "Number_isFinite (pace r)"
  from newWorkout_appended [OF assms(1)] w assms(2) have
    "validInputs [inputDistance f, inputDuration f, inputCadence f]"
    "Running e (lat, lng) (inputDistance f) (inputDuration f) (inputCadence f) = Inr r"
    by auto
  with w fin assms(3,4) show "workout_record w"
    by (auto simp add: Running_Inr validInputs_def)
next
  fix c assume w: "w = CyclingObj c" and fin: "Number_isFinite (speed c)"
  from newWorkout_appended [OF assms(1)] w assms(2) have
    "validInputs [inputDistance f, inputDuration f, inputElevation f]"
    "Cycling e (lat, lng) (inputDistance f) (inputDuration f) (inputElevation f) = Inr c"
    by auto
  with w fin assms(3,4) show "workout_record w"
    by (auto simp add: Cycling_Inr validInputs_def)
qed

lemma submit_running_on_page_after_click:
  assumes "inputType f = ''running''"
    and "validInputs [inputDistance f, inputDuration f, inputCadence f]"
    and "allPositive [inputDistance f, inputDuration f, inputCadence f]"
    and "Running e (Fin 40.75, Fin (- 74)) (inputDistance f) (inputDuration f) (inputCadence f)
           = Inr r"
  shows "workouts (snd (newWorkout e f page_after_click)) = [RunningObj r]
       \<and> localStorage (snd (newWorkout e f page_after_click)) =
           [''workouts'' \<mapsto> JSON_stringify [RunningObj r]]"
proof -
  have "mapEvent page_after_click = Some (Fin 40.75, Fin (- 74))"
    by (simp add: page_after_click_def)
  from newWorkout_running_accepted [OF this assms] show ?thesis
    by (simp add: page_after_click_def)
qed

lemma submit_example:
  "workouts (snd (newWorkout clock_example form_example page_after_click)) =
     [RunningObj running_example]
   \<and> localStorage (snd (newWorkout clock_example form_example page_after_click)) =
     [''workouts'' \<mapsto> JSON_stringify [RunningObj running_example]]"
proof (rule submit_running_on_page_after_click)
  show "inputType form_example = ''running''"
    by (simp add: form_example_def)
  show "validInputs [inputDistance form_example, inputDuration form_example,
          inputCadence form_example]"
    by (simp add: form_example_def validInputs_def)
  show "allPositive [inputDistance form_example, inputDuration form_example,
          inputCadence form_example]"
    by (simp add: form_example_def allPositive_def)
  show "Running clock_example (Fin 40.75, Fin (- 74)) (inputDistance form_example)
          (inputDuration form_example) (inputCadence form_example) = Inr running_example"
    using Running_example by (simp add: form_example_def)
qed

lemma submit_overflow_example:
  "workouts (snd (newWorkout clock_example form_overflow_example page_after_click)) =
     [RunningObj running_overflow_example]
   \<and> localStorage (snd (newWorkout clock_example form_overflow_example page_after_click)) =
     [''workouts'' \<mapsto> JSON_stringify [RunningObj running_overflow_example]]"
proof (rule submit_running_on_page_after_click)
  show "inputType form_overflow_example = ''running''"
    by (simp add: form_overflow_example_def)
  show "validInputs [inputDistance form_overflow_example, inputDuration form_overflow_example,
          inputCadence form_overflow_example]"
    by (simp add: form_overflow_example_def validInputs_def)
  show "allPositive [inputDistance form_overflow_example, inputDuration form_overflow_example,
          inputCadence form_overflow_example]"
    by (simp add: form_overflow_example_def allPositive_def)
  show "Running clock_example (Fin 40.75, Fin (- 74)) (inputDistance form_overflow_example)
          (inputDuration form_overflow_example) (inputCadence form_overflow_example) =
          Inr running_overflow_example"
    using Running_overflow_example by (simp only: form_overflow_example_def inputs.simps)
qed

section \<open>Storage\<close>

text \<open>
  JSON data comes back from \<open>stringify\<close> and \<open>parse\<close> as it went in.
\<close>

lemma plain_round_trip:
  "plain v \<Longrightarrow> \<exists>j. serialize v = Some j \<and> parse j = v"
proof (induction v rule: serialize.induct)
  case (4 n)
  then show ?case by (auto dest!: isFinite_Fin)
next
  case (7 xs)
  have "map (\<lambda>x. parse (case serialize x of None \<Rightarrow> JNull | Some j \<Rightarrow> j)) xs = xs"
  proof (rule map_idI)
    fix x assume x: "x \<in> set xs"
    with 7(2) have "plain x" by (simp add: list_all_iff)
    from 7(1) [OF x this] show "parse (case serialize x of None \<Rightarrow> JNull | Some j \<Rightarrow> j) = x"
      by auto
  qed
  then show ?case by (simp add: comp_def)
next
  case (8 ps)
  have "\<forall>p \<in> set qs. p \<in> set ps \<Longrightarrow>
        map (\<lambda>(k, v). (k, parse v))
          (concat (map (\<lambda>(k, v). case serialize v of None \<Rightarrow> [] | Some j \<Rightarrow> [(k, j)]) qs)) = qs" for qs
  proof (induction qs)
    case Nil
    then show ?case by simp
  next
    case (Cons q qs)
    obtain k v where q: "q = (k, v)" by (cases q)
    with Cons.prems have m: "(k, v) \<in> set ps" by simp
    with 8(2) have "plain v" by (auto simp add: list_all_iff)
    from 8(1) [OF m refl this] obtain j where "serialize v = Some j" "parse j = v" by auto
    with Cons q show ?case by simp
  qed
  then show ?case by simp
qed simp_all


lemma reloaded_plain: "plain v \<Longrightarrow> reloaded (Value v) = v"
  using plain_round_trip [of v] by (auto simp add: reloaded_def)

lemma reloaded_running:
  assumes "workout_record (RunningObj r)"
  shows "reloaded (RunningObj r) =
     Obj [(''date'', Str (toISOString (date r))),
          (''id'', Str (id_w r)),
          (''clicks'', Num (Fin (of_int (clicks r)))),
          (''coords'', Arr [Num (fst (coords r)), Num (snd (coords r))]),
          (''distance'', Num (distance r)),
          (''duration'', Num (duration r)),
          (''type'', Str ''running''),
          (''cadence'', Num (cadence r)),
          (''pace'', Num (pace r)),
          (''description'', Str (running.description r))]"
proof -
  from assms obtain a b c d e f where
    "fst (coords r) = Fin a" "snd (coords r) = Fin b" "distance r = Fin c"
    "duration r = Fin d" "cadence r = Fin e" "pace r = Fin f"
    by (auto dest!: isFinite_Fin)
  with assms show ?thesis
    by (simp add: reloaded_def workout_props_def)
qed

lemma reloaded_cycling:
  assumes "workout_record (CyclingObj r)"
  shows "reloaded (CyclingObj r) =
     Obj [(''date'', Str (toISOString (date r))),
          (''id'', Str (id_w r)),
          (''clicks'', Num (Fin (of_int (clicks r)))),
          (''coords'', Arr [Num (fst (coords r)), Num (snd (coords r))]),
          (''distance'', Num (distance r)),
          (''duration'', Num (duration r)),
          (''type'', Str ''cycling''),
          (''elevation'', Num (elevation r)),
          (''speed'', Num (speed r)),
          (''description'', Str (cycling.description r))]"
proof -
  from assms obtain a b c d e f where
    "fst (coords r) = Fin a" "snd (coords r) = Fin b" "distance r = Fin c"
    "duration r = Fin d" "elevation r = Fin e" "speed r = Fin f"
    by (auto dest!: isFinite_Fin)
  with assms show ?thesis
    by (simp add: reloaded_def workout_props_def)
qed


lemma reloaded_fields:
  assumes "workout_record w"
  shows "\<exists>ps. reloaded w = Obj ps
           \<and> map fst ps = map fst (own_props w)
           \<and> (\<forall>k v. map_of (own_props w) k = Some v \<longrightarrow> (\<forall>t. v \<noteq> DateObj t)
                  \<longrightarrow> map_of ps k = Some v)
           \<and> (\<forall>k t. map_of (own_props w) k = Some (DateObj t)
                  \<longrightarrow> map_of ps k = Some (Str (toISOString t)))"
proof (cases w)
  case (RunningObj r)
  with assms show ?thesis
    by (simp add: reloaded_running workout_props_def)
next
  case (CyclingObj c)
  with assms show ?thesis
    by (simp add: reloaded_cycling workout_props_def)
next
  case (Value v)
  with assms obtain ps where v: "v = Obj ps" and p: "plain (Obj ps)"
    by (cases v) simp_all
  have "map_of ps k \<noteq> Some (DateObj t)" for k t
  proof
    assume "map_of ps k = Some (DateObj t)"
    then have "(k, DateObj t) \<in> set ps" by (rule map_of_SomeD)
    with p show False by (auto simp add: list_all_iff)
  qed
  with Value v p show ?thesis by (simp add: reloaded_plain)
qed

lemma renderWorkout_listable:
  "(\<exists>item. renderWorkout w s = Inr (s\<lparr> list_items := item # list_items s \<rparr>)) = listable w"
  by (cases "own_prop w ''pace''"; cases "own_prop w ''speed''")
     (auto simp add: renderWorkout_def listable_def Let_def)

lemma reloaded_workout_record:
  assumes "workout_record w"
  shows "workout_record (Value (reloaded w))"
proof (cases w)
  case (RunningObj r)
  with assms show ?thesis
    by (simp add: reloaded_running listable_def nullish_def own_prop_def)
next
  case (CyclingObj c)
  with assms show ?thesis
    by (simp add: reloaded_cycling listable_def nullish_def own_prop_def)
next
  case (Value v)
  with assms obtain ps where v: "v = Obj ps" and p: "plain (Obj ps)"
    by (cases v) simp_all
  with Value assms show ?thesis by (simp add: reloaded_plain del: plain.simps)
qed

lemma renderWorkout_reloaded:
  assumes "workout_record w"
  shows "\<exists>item. renderWorkout (Value (reloaded w)) s =
                  Inr (s\<lparr> list_items := item # list_items s \<rparr>)"
proof -
  from reloaded_workout_record [OF assms] have "listable (Value (reloaded w))"
    by (cases "reloaded w") simp_all
  then show ?thesis by (simp add: renderWorkout_listable)
qed

lemma forEach_renderWorkout_reloaded:
  assumes "list_all workout_record ws"
  shows "\<exists>s'. forEach_renderWorkout (map (\<lambda>w. Value (reloaded w)) ws) s = Inr s'
              \<and> workouts s' = workouts s"
  using assms
proof (induction ws arbitrary: s)
  case Nil
  then show ?case by simp
next
  case (Cons w ws)
  from Cons.prems have "workout_record w" by simp
  from renderWorkout_reloaded [OF this, of s] obtain item where
    r: "renderWorkout (Value (reloaded w)) s = Inr (s\<lparr> list_items := item # list_items s \<rparr>)" ..
  from Cons.prems have "list_all workout_record ws" by simp
  from Cons.IH [OF this, of "s\<lparr> list_items := item # list_items s \<rparr>"] r
  show ?case by simp
qed

lemma getLocalStorage_after_set:
  assumes "list_all workout_record (workouts s)"
  shows "\<exists>s'. getLocalStorage (s0\<lparr> localStorage := localStorage (setLocalStorage s) \<rparr>) = Inr s'
              \<and> workouts s' = map (\<lambda>w. Value (reloaded w)) (workouts s)"
proof -
  have p: "parse (JSON_stringify (workouts s)) = Arr (map reloaded (workouts s))"
    by (simp add: JSON_stringify_def reloaded_def comp_def)
  from forEach_renderWorkout_reloaded [OF assms,
      of "s0\<lparr> localStorage := localStorage (setLocalStorage s),
              workouts := map (\<lambda>w. Value (reloaded w)) (workouts s) \<rparr>"]
  show ?thesis
    by (simp add: getLocalStorage_def setLocalStorage_def p comp_def)
qed

lemma reloaded_running_example: "reloaded (RunningObj running_example) = reloaded_example"
proof -
  have "workout_record (RunningObj running_example)"
    by (simp add: running_example_def)
  from reloaded_running [OF this] show ?thesis
    by (simp add: running_example_def reloaded_example_def toISOString_example)
qed

lemma reloaded_cycling_example:
  "reloaded (CyclingObj cycling_example) = reloaded_cycling_example"
proof -
  have "workout_record (CyclingObj cycling_example)"
    by (simp add: cycling_example_def)
  from reloaded_cycling [OF this] show ?thesis
    by (simp add: cycling_example_def reloaded_cycling_example_def toISOString_example)
qed

text \<open>
  A quotient that overflowed is stored as \<open>null\<close>, and listing the record that was read
  back raises: \<open>null\<close> has no \<open>toFixed\<close>.
\<close>

lemma reload_overflow_example:
  "getLocalStorage (page_after_reload
     [''workouts'' \<mapsto> JSON_stringify [RunningObj running_overflow_example]]) = Inl TypeError"
proof -
  have "\<exists>ps. parse (JSON_stringify [RunningObj running_overflow_example]) = Arr [Obj ps]
          \<and> map_of ps ''type'' = Some (Str ''running'') \<and> map_of ps ''pace'' = Some Null"
    by (simp add: JSON_stringify_def running_overflow_example_def running_example_def
        workout_props_def)
  then obtain ps where
    p: "parse (JSON_stringify [RunningObj running_overflow_example]) = Arr [Obj ps]"
    and t: "map_of ps ''type'' = Some (Str ''running'')"
    and n: "map_of ps ''pace'' = Some Null"
    by blast
  from t n have "renderWorkout (Value (Obj ps)) s = Inl TypeError" for s
    by (simp add: renderWorkout_def nullish_def own_prop_def)
  with p show ?thesis
    by (simp add: getLocalStorage_def page_after_reload_def)
qed

section \<open>The claims\<close>

text \<open>
  C1. A submission of type \<open>running\<close> or \<open>cycling\<close> in which a required number is
  not finite (distance, duration, cadence for running; distance, duration, elevation
  for cycling) or a number that has to be positive is not above 0 (distance, duration,
  and cadence for running) constructs and appends no record and stores nothing. The
  handler shows the alert "Inputs have to be positive numbers!" and returns, leaving
  the state as it was but for that alert; this supposes the click on the map that
  every submission follows (\<open>#mapEvent\<close> is set), since the handler reads the clicked
  position before it validates.
\<close>

theorem invalid_submission_rejected:
  assumes "inputType f = ''running'' \<and>
           (\<not> Number_isFinite (inputDistance f) \<or> \<not> Number_isFinite (inputDuration f)
            \<or> \<not> Number_isFinite (inputCadence f)
            \<or> \<not> js_gt (inputDistance f) (Fin 0) \<or> \<not> js_gt (inputDuration f) (Fin 0)
            \<or> \<not> js_gt (inputCadence f) (Fin 0))
         \<or> inputType f = ''cycling'' \<and>
           (\<not> Number_isFinite (inputDistance f) \<or> \<not> Number_isFinite (inputDuration f)
            \<or> \<not> Number_isFinite (inputElevation f)
            \<or> \<not> js_gt (inputDistance f) (Fin 0) \<or> \<not> js_gt (inputDuration f) (Fin 0))"
  shows "(mapEvent s \<noteq> None \<longrightarrow>
            newWorkout e f s =
              (Normal, s\<lparr> alerts := alerts s @ [''Inputs have to be positive numbers!''] \<rparr>))
         \<and> workouts (snd (newWorkout e f s)) = workouts s
         \<and> localStorage (snd (newWorkout e f s)) = localStorage s"
proof (cases "mapEvent s")
  case None
  then show ?thesis by (simp add: newWorkout_no_mapEvent)
next
  case (Some ll)
  from assms have
    "newWorkout e f s = (Normal, alert ''Inputs have to be positive numbers!'' s)"
  proof
    assume "inputType f = ''running'' \<and>
           (\<not> Number_isFinite (inputDistance f) \<or> \<not> Number_isFinite (inputDuration f)
            \<or> \<not> Number_isFinite (inputCadence f)
            \<or> \<not> js_gt (inputDistance f) (Fin 0) \<or> \<not> js_gt (inputDuration f) (Fin 0)
            \<or> \<not> js_gt (inputCadence f) (Fin 0))"
    then show ?thesis
      by (intro newWorkout_running_rejected [OF Some])
         (auto simp add: validInputs_def allPositive_def)
  next
    assume "inputType f = ''cycling'' \<and>
           (\<not> Number_isFinite (inputDistance f) \<or> \<not> Number_isFinite (inputDuration f)
            \<or> \<not> Number_isFinite (inputElevation f)
            \<or> \<not> js_gt (inputDistance f) (Fin 0) \<or> \<not> js_gt (inputDuration f) (Fin 0))"
    then show ?thesis
      by (intro newWorkout_cycling_rejected [OF Some])
         (auto simp add: validInputs_def allPositive_def)
  qed
  then show ?thesis by (simp add: alert_def)
qed

theorem invalid_submission_rejected_witness:
  "inputType (form_example\<lparr> inputCadence := NaN \<rparr>) = ''running''
   \<and> \<not> Number_isFinite (inputCadence (form_example\<lparr> inputCadence := NaN \<rparr>))
   \<and> mapEvent page_after_click \<noteq> None
   \<and> newWorkout clock_example (form_example\<lparr> inputCadence := NaN \<rparr>) page_after_click =
       (Normal, page_after_click\<lparr> alerts := [''Inputs have to be positive numbers!''] \<rparr>)"
proof -
  have h1: "mapEvent page_after_click \<noteq> None"
    by (simp add: page_after_click_def)
  have h2: "inputType (form_example\<lparr> inputCadence := NaN \<rparr>) = ''running''"
    and h3: "\<not> Number_isFinite (inputCadence (form_example\<lparr> inputCadence := NaN \<rparr>))"
    by (simp_all add: form_example_def)
  from invalid_submission_rejected
         [of "form_example\<lparr> inputCadence := NaN \<rparr>" page_after_click clock_example] h1 h2 h3
  have "newWorkout clock_example (form_example\<lparr> inputCadence := NaN \<rparr>) page_after_click =
       (Normal, page_after_click\<lparr> alerts := alerts page_after_click
            @ [''Inputs have to be positive numbers!''] \<rparr>)"
    by blast
  with h1 h2 h3 show ?thesis by (simp add: page_after_click_def)
qed

text \<open>
  C2. A \<open>Running\<close> constructed with distance, duration and cadence above 0 exists (the
  constructor does not raise), keeps its arguments, and stores in \<open>pace\<close> the quotient
  \<open>duration / distance\<close> of the language, computed from the fields it keeps. For finite
  arguments \<open>d\<close> and \<open>t\<close> that is the real quotient \<open>t / d\<close> rounded to a double: an
  infinity when it overflows, and otherwise, from \<open>1 / 2 ^ 1022\<close> on (the normal range),
  a number within \<open>t / d / 2 ^ 53\<close> of \<open>t / d\<close>. The value is a field of the record,
  which \<open>click\<close> leaves as it is. Distance 6 and duration 24 give pace 4.
\<close>

theorem Running_pace:
  assumes "js_gt distance' (Fin 0)" and "js_gt duration' (Fin 0)" and "js_gt cadence' (Fin 0)"
  shows "\<exists>r. Running e coords' distance' duration' cadence' = Inr r
           \<and> distance r = distance' \<and> duration r = duration' \<and> cadence r = cadence'
           \<and> pace r = js_div (duration r) (distance r)
           \<and> (\<forall>d t. distance' = Fin d \<and> duration' = Fin t \<longrightarrow>
                 pace r = round_double (t / d)
                 \<and> (pace r = PInf \<or> (\<exists>v. pace r = Fin v \<and> 0 \<le> v))
                 \<and> (\<forall>v. pace r = Fin v \<and> 1 / 2 ^ 1022 \<le> t / d \<longrightarrow>
                        \<bar>v - t / d\<bar> \<le> t / d / 2 ^ 53))
           \<and> pace (click r) = pace r"
proof -
  have q1: "round_double (t / d) = PInf \<or> (\<exists>v. round_double (t / d) = Fin v \<and> 0 \<le> v)"
    if "0 < d" "0 < t" for d t :: real
    using that by (intro round_double_nonneg) simp
  have q2: "\<bar>v - t / d\<bar> \<le> t / d / 2 ^ 53"
    if "0 < d" "0 < t" "round_double (t / d) = Fin v" "1 / 2 ^ 1022 \<le> t / d" for d t v :: real
  proof -
    from that(1,2) have a: "\<bar>t / d\<bar> = t / d" by simp
    have "1 / 2 ^ 1022 \<le> \<bar>t / d\<bar>" unfolding a by (rule that(4))
    from round_double_accurate [OF that(3) this] show ?thesis unfolding a .
  qed
  obtain r where r: "Running e coords' distance' duration' cadence' = Inr r"
    and f: "distance r = distance'" "duration r = duration'" "cadence r = cadence'"
    and p: "pace r = js_div duration' distance'"
    by (simp add: Running_Inr)
  have "pace r = round_double (t / d)
        \<and> (pace r = PInf \<or> (\<exists>v. pace r = Fin v \<and> 0 \<le> v))
        \<and> (\<forall>v. pace r = Fin v \<and> 1 / 2 ^ 1022 \<le> t / d \<longrightarrow> \<bar>v - t / d\<bar> \<le> t / d / 2 ^ 53)"
    if "distance' = Fin d \<and> duration' = Fin t" for d t
  proof -
    from assms that have pos: "0 < d" "0 < t" by simp_all
    with p that have e: "pace r = round_double (t / d)" by simp
    from e q1 [OF pos] q2 [OF pos] show ?thesis by simp
  qed
  moreover have "pace (click r) = pace r" by (simp add: click_def)
  ultimately have "Running e coords' distance' duration' cadence' = Inr r
           \<and> distance r = distance' \<and> duration r = duration' \<and> cadence r = cadence'
           \<and> pace r = js_div (duration r) (distance r)
           \<and> (\<forall>d t. distance' = Fin d \<and> duration' = Fin t \<longrightarrow>
                 pace r = round_double (t / d)
                 \<and> (pace r = PInf \<or> (\<exists>v. pace r = Fin v \<and> 0 \<le> v))
                 \<and> (\<forall>v. pace r = Fin v \<and> 1 / 2 ^ 1022 \<le> t / d \<longrightarrow>
                        \<bar>v - t / d\<bar> \<le> t / d / 2 ^ 53))
           \<and> pace (click r) = pace r"
    using r f p by blast
  then show ?thesis ..
qed

theorem Running_pace_witness:
  "js_gt (Fin 6) (Fin 0) \<and> js_gt (Fin 24) (Fin 0) \<and> js_gt (Fin 178) (Fin 0)
   \<and> (\<exists>r. Running clock_example (Fin 40.75, Fin (- 74)) (Fin 6) (Fin 24) (Fin 178) = Inr r
          \<and> pace r = Fin 4)"
proof -
  have h1: "js_gt (Fin 6) (Fin 0)" and h2: "js_gt (Fin 24) (Fin 0)"
    and h3: "js_gt (Fin 178) (Fin 0)"
    by simp_all
  from Running_pace [OF h1 h2 h3, of clock_example "(Fin 40.75, Fin (- 74))"]
  obtain r where
    "Running clock_example (Fin 40.75, Fin (- 74)) (Fin 6) (Fin 24) (Fin 178) = Inr r"
    and "distance r = Fin 6" and "duration r = Fin 24"
    and "pace r = js_div (duration r) (distance r)"
    by blast
  then show ?thesis using h1 h2 h3 js_div_exact_example by simp
qed

text \<open>
  C3. A \<open>Cycling\<close> constructed with distance and duration above 0 exists, keeps its
  arguments, and stores in \<open>speed\<close> the quotient \<open>distance / (duration / 60)\<close> of the
  language, computed from the fields it keeps: for finite arguments \<open>d\<close> and \<open>t\<close> the
  distance divided by the double \<open>q\<close> that \<open>t / 60\<close> rounds to. It is a finite number
  from 0 on, or \<open>Infinity\<close>; when \<open>t / 60\<close> and \<open>d / q\<close> are in the normal range and
  the speed is finite, \<open>q\<close> is within \<open>t / 60 / 2 ^ 53\<close> of \<open>t / 60\<close> and the speed within
  \<open>d / q / 2 ^ 53\<close> of \<open>d / q\<close>. The value is a field of the record, which \<open>click\<close>
  leaves as it is. Distance 20 and duration 60 give speed 20.
\<close>

theorem Cycling_speed:
  assumes "js_gt distance' (Fin 0)" and "js_gt duration' (Fin 0)"
  shows "\<exists>c. Cycling e coords' distance' duration' elevation' = Inr c
           \<and> distance c = distance' \<and> duration c = duration' \<and> elevation c = elevation'
           \<and> speed c = js_div (distance c) (js_div (duration c) (Fin 60))
           \<and> (\<forall>d t. distance' = Fin d \<and> duration' = Fin t \<longrightarrow>
                 speed c = js_div (Fin d) (round_double (t / 60))
                 \<and> (speed c = PInf \<or> (\<exists>v. speed c = Fin v \<and> 0 \<le> v))
                 \<and> (\<forall>q v. round_double (t / 60) = Fin q \<and> speed c = Fin v
                          \<and> 1 / 2 ^ 1022 \<le> t / 60 \<and> 1 / 2 ^ 1022 \<le> d / q \<longrightarrow>
                        \<bar>q - t / 60\<bar> \<le> t / 60 / 2 ^ 53 \<and> \<bar>v - d / q\<bar> \<le> d / q / 2 ^ 53))
           \<and> speed (click c) = speed c"
proof -
  have q: "js_div (Fin d) (round_double (t / 60)) = PInf
        \<or> (\<exists>v. js_div (Fin d) (round_double (t / 60)) = Fin v \<and> 0 \<le> v)"
    if "0 < d" "0 < t" for d t :: real
  proof -
    from that(2) have "round_double (t / 60) = PInf
        \<or> (\<exists>q. round_double (t / 60) = Fin q \<and> 0 \<le> q)"
      by (intro round_double_nonneg) simp
    then show ?thesis
    proof (elim disjE exE conjE)
      assume "round_double (t / 60) = PInf"
      then show ?thesis by simp
    next
      fix q assume q: "round_double (t / 60) = Fin q" "0 \<le> q"
      show ?thesis
      proof (cases "q = 0")
        case True
        with q that(1) show ?thesis by simp
      next
        case False
        with q that(1) have "0 \<le> d / q" by simp
        from round_double_nonneg [OF this] q False show ?thesis by simp
      qed
    qed
  qed
  obtain c where c: "Cycling e coords' distance' duration' elevation' = Inr c"
    and f: "distance c = distance'" "duration c = duration'" "elevation c = elevation'"
    and p: "speed c = js_div distance' (js_div duration' (Fin 60))"
    by (simp add: Cycling_Inr)
  have "speed c = js_div (Fin d) (round_double (t / 60))
        \<and> (speed c = PInf \<or> (\<exists>v. speed c = Fin v \<and> 0 \<le> v))
        \<and> (\<forall>q v. round_double (t / 60) = Fin q \<and> speed c = Fin v
                 \<and> 1 / 2 ^ 1022 \<le> t / 60 \<and> 1 / 2 ^ 1022 \<le> d / q \<longrightarrow>
               \<bar>q - t / 60\<bar> \<le> t / 60 / 2 ^ 53 \<and> \<bar>v - d / q\<bar> \<le> d / q / 2 ^ 53)"
    if "distance' = Fin d \<and> duration' = Fin t" for d t
  proof -
    from assms that have pos: "0 < d" "0 < t" by simp_all
    from p that have e: "speed c = js_div (Fin d) (round_double (t / 60))" by simp
    have acc: "\<forall>q v. round_double (t / 60) = Fin q \<and> speed c = Fin v
                 \<and> 1 / 2 ^ 1022 \<le> t / 60 \<and> 1 / 2 ^ 1022 \<le> d / q \<longrightarrow>
               \<bar>q - t / 60\<bar> \<le> t / 60 / 2 ^ 53 \<and> \<bar>v - d / q\<bar> \<le> d / q / 2 ^ 53"
    proof (intro allI impI)
      fix q v
      assume h: "round_double (t / 60) = Fin q \<and> speed c = Fin v
                 \<and> 1 / 2 ^ 1022 \<le> t / 60 \<and> 1 / 2 ^ 1022 \<le> d / q"
      show "\<bar>q - t / 60\<bar> \<le> t / 60 / 2 ^ 53 \<and> \<bar>v - d / q\<bar> \<le> d / q / 2 ^ 53"
      proof (rule js_div_twice_accurate)
        from h show "round_double (t / 60) = Fin q" by simp
        from h e show "js_div (Fin d) (Fin q) = Fin v" by metis
        from h show "1 / 2 ^ 1022 \<le> t / 60" by (elim conjE)
        from h show "1 / 2 ^ 1022 \<le> d / q" by (elim conjE)
      qed
    qed
    from e q [OF pos] have nn: "speed c = PInf \<or> (\<exists>v. speed c = Fin v \<and> 0 \<le> v)"
      by simp
    from e nn acc show ?thesis by simp
  qed
  moreover have "speed (click c) = speed c" by (simp add: click_def)
  ultimately have "Cycling e coords' distance' duration' elevation' = Inr c
           \<and> distance c = distance' \<and> duration c = duration' \<and> elevation c = elevation'
           \<and> speed c = js_div (distance c) (js_div (duration c) (Fin 60))
           \<and> (\<forall>d t. distance' = Fin d \<and> duration' = Fin t \<longrightarrow>
                 speed c = js_div (Fin d) (round_double (t / 60))
                 \<and> (speed c = PInf \<or> (\<exists>v. speed c = Fin v \<and> 0 \<le> v))
                 \<and> (\<forall>q v. round_double (t / 60) = Fin q \<and> speed c = Fin v
                          \<and> 1 / 2 ^ 1022 \<le> t / 60 \<and> 1 / 2 ^ 1022 \<le> d / q \<longrightarrow>
                        \<bar>q - t / 60\<bar> \<le> t / 60 / 2 ^ 53 \<and> \<bar>v - d / q\<bar> \<le> d / q / 2 ^ 53))
           \<and> speed (click c) = speed c"
    using c f p by blast
  then show ?thesis ..
qed

theorem Cycling_speed_witness:
  "js_gt (Fin 20) (Fin 0) \<and> js_gt (Fin 60) (Fin 0)
   \<and> (\<exists>c. Cycling clock_example (Fin 40.75, Fin (- 74)) (Fin 20) (Fin 60) (Fin 300) = Inr c
          \<and> speed c = Fin 20)"
proof -
  have h1: "js_gt (Fin 20) (Fin 0)" and h2: "js_gt (Fin 60) (Fin 0)"
    by simp_all
  from Cycling_speed [OF h1 h2, of clock_example "(Fin 40.75, Fin (- 74))" "Fin 300"]
  obtain c where
    "Cycling clock_example (Fin 40.75, Fin (- 74)) (Fin 20) (Fin 60) (Fin 300) = Inr c"
    and "distance c = Fin 20" and "duration c = Fin 60"
    and "speed c = js_div (distance c) (js_div (duration c) (Fin 60))"
    by blast
  then show ?thesis using h1 h2 round_double_small by simp
qed



text \<open>
  C5, as amended. The collection holds workout records whose numbers are finite:
  instances made in this session, and plain objects read back in an earlier one.
  Writing N of them under the key "workouts" and reading them back gives N plain
  objects, in the same order, each with the property names of its original in the same
  order, and they are workout records again. Every property has the value it had,
  except that a property holding a \<open>Date\<close> (the \<open>date\<close> of an instance) comes back as
  the string its \<open>toISOString\<close> gives. A plain object comes back as it went in.
\<close>

theorem storage_round_trip:
  assumes "list_all workout_record (workouts s)"
  shows "localStorage (setLocalStorage s) ''workouts'' = Some (JSON_stringify (workouts s))
       \<and> (\<exists>s'. getLocalStorage (s0\<lparr> localStorage := localStorage (setLocalStorage s) \<rparr>) = Inr s'
            \<and> length (workouts s') = length (workouts s)
            \<and> list_all workout_record (workouts s')
            \<and> (\<forall>i<length (workouts s). \<exists>ps.
                  workouts s' ! i = Value (Obj ps)
                  \<and> map fst ps = map fst (own_props (workouts s ! i))
                  \<and> (\<forall>k v. map_of (own_props (workouts s ! i)) k = Some v
                         \<longrightarrow> (\<forall>t. v \<noteq> DateObj t) \<longrightarrow> map_of ps k = Some v)
                  \<and> (\<forall>k t. map_of (own_props (workouts s ! i)) k = Some (DateObj t)
                         \<longrightarrow> map_of ps k = Some (Str (toISOString t)))
                  \<and> (\<forall>v. workouts s ! i = Value v \<longrightarrow> workouts s' ! i = Value v)))"
proof -
  from getLocalStorage_after_set [OF assms, of s0] obtain s' where
    g: "getLocalStorage (s0\<lparr> localStorage := localStorage (setLocalStorage s) \<rparr>) = Inr s'"
    and w: "workouts s' = map (\<lambda>w. Value (reloaded w)) (workouts s)"
    by blast
  have r: "workout_record (workouts s ! i)" if "i < length (workouts s)" for i
    using assms that by (simp add: list_all_length)
  have "\<exists>ps. workouts s' ! i = Value (Obj ps)
          \<and> map fst ps = map fst (own_props (workouts s ! i))
          \<and> (\<forall>k v. map_of (own_props (workouts s ! i)) k = Some v
                 \<longrightarrow> (\<forall>t. v \<noteq> DateObj t) \<longrightarrow> map_of ps k = Some v)
          \<and> (\<forall>k t. map_of (own_props (workouts s ! i)) k = Some (DateObj t)
                 \<longrightarrow> map_of ps k = Some (Str (toISOString t)))
          \<and> (\<forall>v. workouts s ! i = Value v \<longrightarrow> workouts s' ! i = Value v)"
    if i: "i < length (workouts s)" for i
  proof -
    have "workouts s' ! i = Value v" if v: "workouts s ! i = Value v" for v
    proof -
      from r [OF i] v have "plain v" by (cases v) simp_all
      with w i v show ?thesis by (simp add: reloaded_plain)
    qed
    with reloaded_fields [OF r [OF i]] i w show ?thesis by auto
  qed
  moreover from r w have "list_all workout_record (workouts s')"
    by (simp add: list_all_length reloaded_workout_record)
  ultimately show ?thesis using g w by (auto simp add: setLocalStorage_def)
qed

text \<open>
  The collection of a second session: the plain object read back from the first, then
  a \<open>Cycling\<close> instance made in this one. Both come back, in that order.
\<close>

theorem storage_round_trip_witness:
  "list_all workout_record
     (workouts (page_after_click\<lparr> workouts :=
        [Value reloaded_example, CyclingObj cycling_example] \<rparr>))
   \<and> (\<exists>s' ps. getLocalStorage ((page_after_reload Map.empty)
           \<lparr> localStorage := localStorage (setLocalStorage
                (page_after_click\<lparr> workouts :=
                   [Value reloaded_example, CyclingObj cycling_example] \<rparr>)) \<rparr>) = Inr s'
         \<and> workouts s' = [Value reloaded_example, Value (Obj ps)]
         \<and> map fst ps = [''date'', ''id'', ''clicks'', ''coords'', ''distance'', ''duration'',
                         ''type'', ''elevation'', ''speed'', ''description'']
         \<and> map_of ps ''type'' = Some (Str ''cycling'')
         \<and> map_of ps ''speed'' = Some (Num (Fin 20))
         \<and> map_of ps ''date'' = Some (Str ''2021-10-31T12:00:00.123Z''))"
proof -
  let ?s = "page_after_click\<lparr> workouts :=
              [Value reloaded_example, CyclingObj cycling_example] \<rparr>"
  have h: "list_all workout_record (workouts ?s)"
    by (simp add: reloaded_example_def cycling_example_def listable_def nullish_def
        own_prop_def)
  from storage_round_trip [OF h, of "page_after_reload Map.empty"] obtain s' where
    g: "getLocalStorage ((page_after_reload Map.empty)
           \<lparr> localStorage := localStorage (setLocalStorage ?s) \<rparr>) = Inr s'"
    and len: "length (workouts s') = length (workouts ?s)"
    and all: "\<forall>i<length (workouts ?s). \<exists>ps.
                  workouts s' ! i = Value (Obj ps)
                  \<and> map fst ps = map fst (own_props (workouts ?s ! i))
                  \<and> (\<forall>k v. map_of (own_props (workouts ?s ! i)) k = Some v
                         \<longrightarrow> (\<forall>t. v \<noteq> DateObj t) \<longrightarrow> map_of ps k = Some v)
                  \<and> (\<forall>k t. map_of (own_props (workouts ?s ! i)) k = Some (DateObj t)
                         \<longrightarrow> map_of ps k = Some (Str (toISOString t)))
                  \<and> (\<forall>v. workouts ?s ! i = Value v \<longrightarrow> workouts s' ! i = Value v)"
    by blast
  have "0 < length (workouts ?s)" by simp
  with all have "\<forall>v. workouts ?s ! 0 = Value v \<longrightarrow> workouts s' ! 0 = Value v"
    by blast
  then have n0: "workouts s' ! 0 = Value reloaded_example" by simp
  have "Suc 0 < length (workouts ?s)" by simp
  with all obtain ps where n1: "workouts s' ! Suc 0 = Value (Obj ps)"
    and f: "map fst ps = map fst (own_props (workouts ?s ! Suc 0))"
    and k: "\<forall>k v. map_of (own_props (workouts ?s ! Suc 0)) k = Some v
                 \<longrightarrow> (\<forall>t. v \<noteq> DateObj t) \<longrightarrow> map_of ps k = Some v"
    and d: "\<forall>k t. map_of (own_props (workouts ?s ! Suc 0)) k = Some (DateObj t)
                 \<longrightarrow> map_of ps k = Some (Str (toISOString t))"
    by blast
  from len n0 n1 have c1: "workouts s' = [Value reloaded_example, Value (Obj ps)]"
    by (cases "workouts s'"; cases "tl (workouts s')") auto
  from f have c2: "map fst ps =
      [''date'', ''id'', ''clicks'', ''coords'', ''distance'', ''duration'',
       ''type'', ''elevation'', ''speed'', ''description'']"
    by (simp add: workout_props_def)
  have "map_of (own_props (workouts ?s ! Suc 0)) ''type'' = Some (Str ''cycling'')"
    by (simp add: workout_props_def cycling_example_def)
  with k have c3: "map_of ps ''type'' = Some (Str ''cycling'')" by blast
  have "map_of (own_props (workouts ?s ! Suc 0)) ''speed'' = Some (Num (Fin 20))"
    by (simp add: workout_props_def cycling_example_def)
  with k have c4: "map_of ps ''speed'' = Some (Num (Fin 20))" by blast
  have "map_of (own_props (workouts ?s ! Suc 0)) ''date'' =
      Some (DateObj 1635681600123)"
    by (simp add: workout_props_def cycling_example_def)
  with d have "map_of ps ''date'' = Some (Str (toISOString 1635681600123))" by blast
  then have c5: "map_of ps ''date'' = Some (Str ''2021-10-31T12:00:00.123Z'')"
    by (simp add: toISOString_example)
  from g c1 c2 c3 c4 c5 have "\<exists>s' ps. getLocalStorage ((page_after_reload Map.empty)
           \<lparr> localStorage := localStorage (setLocalStorage ?s) \<rparr>) = Inr s'
         \<and> workouts s' = [Value reloaded_example, Value (Obj ps)]
         \<and> map fst ps = [''date'', ''id'', ''clicks'', ''coords'', ''distance'', ''duration'',
                         ''type'', ''elevation'', ''speed'', ''description'']
         \<and> map_of ps ''type'' = Some (Str ''cycling'')
         \<and> map_of ps ''speed'' = Some (Num (Fin 20))
         \<and> map_of ps ''date'' = Some (Str ''2021-10-31T12:00:00.123Z'')"
    by (intro exI conjI)
  with h show ?thesis by (rule conjI)
qed

text \<open>
  C5 as stated fails in two ways. Submitting \<open>form_example\<close> creates one \<open>Running\<close>
  record and stores the collection; a reload reads back one plain object whose \<open>date\<close>
  is the string "2021-10-31T12:00:00.123Z", where the original holds a \<open>Date\<close>.
  Submitting \<open>form_overflow_example\<close>, which passes the check, creates a \<open>Running\<close>
  record whose pace is \<open>Infinity\<close>; it is stored with pace \<open>null\<close>, and on the reload
  \<open>_getLocalStorage\<close> raises while listing it, so that no collection comes back.
\<close>

theorem storage_round_trip_counterexample:
  "workouts (snd (newWorkout clock_example form_example page_after_click)) =
     [RunningObj running_example]
   \<and> map_sum id workouts
       (getLocalStorage (page_after_reload
          (localStorage (snd (newWorkout clock_example form_example page_after_click))))) =
     Inr [Value reloaded_example]
   \<and> own_prop (RunningObj running_example) ''date'' = DateObj 1635681600123
   \<and> own_prop (Value reloaded_example) ''date'' = Str ''2021-10-31T12:00:00.123Z''
   \<and> workouts (snd (newWorkout clock_example form_overflow_example page_after_click)) =
     [RunningObj running_overflow_example]
   \<and> own_prop (RunningObj running_overflow_example) ''pace'' = Num PInf
   \<and> getLocalStorage (page_after_reload
        (localStorage (snd (newWorkout clock_example form_overflow_example page_after_click)))) =
     Inl TypeError"
proof -
  have "renderWorkout (Value reloaded_example) s =
          Inr (s\<lparr> list_items :=
                 \<lparr> li_type = Str ''running'', li_id = Str ''5681600124'',
                   li_description = Str ''Running on October 31'',
                   li_distance = Num (Fin 6), li_duration = Num (Fin 24),
                   li_details = Some (Fin 4, Num (Fin 178)) \<rparr> # list_items s \<rparr>)" for s
    by (simp add: renderWorkout_def nullish_def own_prop_def reloaded_example_def)
  moreover have "parse (JSON_stringify [RunningObj running_example]) = Arr [reloaded_example]"
    using reloaded_running_example by (simp add: JSON_stringify_def reloaded_def)
  ultimately have "map_sum id workouts
       (getLocalStorage (page_after_reload
          [''workouts'' \<mapsto> JSON_stringify [RunningObj running_example]])) =
     Inr [Value reloaded_example]"
    by (simp add: getLocalStorage_def page_after_reload_def)
  moreover have "own_prop (RunningObj running_example) ''date'' = DateObj 1635681600123"
    by (simp add: own_prop_def workout_props_def running_example_def)
  moreover have "own_prop (Value reloaded_example) ''date'' = Str ''2021-10-31T12:00:00.123Z''"
    by (simp add: own_prop_def reloaded_example_def)
  moreover have "own_prop (RunningObj running_overflow_example) ''pace'' = Num PInf"
    by (simp add: own_prop_def workout_props_def running_overflow_example_def)
  ultimately show ?thesis
    using submit_example submit_overflow_example reload_overflow_example by simp
qed

text \<open>
  C6. A cycling submission, made after a click on the map, with finite distance and
  duration above 0 and any finite elevation (zero and negative included) passes the
  check: no alert is shown, the handler completes normally, and the \<open>Cycling\<close> record
  with that elevation is appended to the collection and stored.
\<close>

theorem cycling_elevation_unchecked:
  assumes "mapEvent s = Some (lat, lng)" and "inputType f = ''cycling''"
    and "inputDistance f = Fin d" and "0 < d"
    and "inputDuration f = Fin t" and "0 < t"
    and "inputElevation f = Fin el"
  shows "\<exists>c. Cycling e (lat, lng) (Fin d) (Fin t) (Fin el) = Inr c
           \<and> elevation c = Fin el
           \<and> fst (newWorkout e f s) = Normal
           \<and> alerts (snd (newWorkout e f s)) = alerts s
           \<and> workouts (snd (newWorkout e f s)) = workouts s @ [CyclingObj c]
           \<and> localStorage (snd (newWorkout e f s)) ''workouts'' =
               Some (JSON_stringify (workouts s @ [CyclingObj c]))"
proof -
  obtain c where c: "Cycling e (lat, lng) (Fin d) (Fin t) (Fin el) = Inr c"
    by (simp add: Cycling_Inr)
  then have el: "elevation c = Fin el" by (auto simp add: Cycling_Inr)
  from assms have v: "validInputs [inputDistance f, inputDuration f, inputElevation f]"
    and p: "allPositive [inputDistance f, inputDuration f]"
    by (simp_all add: validInputs_def allPositive_def)
  from c assms have
    "Cycling e (lat, lng) (inputDistance f) (inputDuration f) (inputElevation f) = Inr c"
    by simp
  from newWorkout_cycling_accepted [OF assms(1,2) v p this] c el show ?thesis
    by simp
qed

theorem cycling_elevation_unchecked_witness:
  "mapEvent page_after_click = Some (Fin 40.75, Fin (- 74))
   \<and> (\<exists>c. Cycling clock_example (Fin 40.75, Fin (- 74)) (Fin 20) (Fin 60) (Fin (- 5)) = Inr c
          \<and> elevation c = Fin (- 5)
          \<and> fst (newWorkout clock_example
                   \<lparr> inputType = ''cycling'', inputDistance = Fin 20, inputDuration = Fin 60,
                     inputCadence = Fin 0, inputElevation = Fin (- 5) \<rparr> page_after_click)
              = Normal
          \<and> workouts (snd (newWorkout clock_example
                   \<lparr> inputType = ''cycling'', inputDistance = Fin 20, inputDuration = Fin 60,
                     inputCadence = Fin 0, inputElevation = Fin (- 5) \<rparr> page_after_click))
              = [CyclingObj c])"
proof -
  have h: "mapEvent page_after_click = Some (Fin 40.75, Fin (- 74))"
    by (simp add: page_after_click_def)
  have w: "workouts page_after_click = []" by (simp add: page_after_click_def)
  from cycling_elevation_unchecked [OF h, of
      "\<lparr> inputType = ''cycling'', inputDistance = Fin 20, inputDuration = Fin 60,
         inputCadence = Fin 0, inputElevation = Fin (- 5) \<rparr>" 20 60 "- 5" clock_example]
  obtain c where
    "Cycling clock_example (Fin 40.75, Fin (- 74)) (Fin 20) (Fin 60) (Fin (- 5)) = Inr c"
    "elevation c = Fin (- 5)"
    "fst (newWorkout clock_example
            \<lparr> inputType = ''cycling'', inputDistance = Fin 20, inputDuration = Fin 60,
              inputCadence = Fin 0, inputElevation = Fin (- 5) \<rparr> page_after_click) = Normal"
    "workouts (snd (newWorkout clock_example
            \<lparr> inputType = ''cycling'', inputDistance = Fin 20, inputDuration = Fin 60,
              inputCadence = Fin 0, inputElevation = Fin (- 5) \<rparr> page_after_click))
       = workouts page_after_click @ [CyclingObj c]"
    by auto
  with h w show ?thesis by auto
qed

text \<open>
  C7. A submission of either type with distance 0 is rejected before any record is
  constructed: the collection stays as it is, and (after the click on the map that a
  submission follows) the handler shows the alert and returns, the state gaining that
  alert and nothing else. In general, whenever the handler has appended an instance,
  its distance and duration are finite numbers above 0. So \<open>calcPace\<close>, which divides
  by the distance, never divided by zero: the pace is the rounded quotient. In
  \<open>calcSpeed\<close> the distance is the dividend; the divisor is the double that
  \<open>duration / 60\<close> rounds to, which the check does not keep away from zero
  (\<open>calcSpeed_underflow_example\<close>).
\<close>

theorem zero_distance_rejected:
  assumes "inputType f = ''running'' \<or> inputType f = ''cycling''"
    and "inputDistance f = Fin 0"
  shows "(mapEvent s \<noteq> None \<longrightarrow>
            newWorkout e f s =
              (Normal, s\<lparr> alerts := alerts s @ [''Inputs have to be positive numbers!''] \<rparr>))
         \<and> workouts (snd (newWorkout e f s)) = workouts s
         \<and> (\<forall>f' r. workouts (snd (newWorkout e f' s)) = workouts s @ [RunningObj r] \<longrightarrow>
               (\<exists>d t. distance r = Fin d \<and> 0 < d \<and> duration r = Fin t \<and> 0 < t
                      \<and> pace r = round_double (t / d)))
         \<and> (\<forall>f' c. workouts (snd (newWorkout e f' s)) = workouts s @ [CyclingObj c] \<longrightarrow>
               (\<exists>d t. distance c = Fin d \<and> 0 < d \<and> duration c = Fin t \<and> 0 < t
                      \<and> speed c = js_div (Fin d) (round_double (t / 60))))"
proof -
  have "newWorkout e f s = (Normal, alert ''Inputs have to be positive numbers!'' s)"
    if "mapEvent s = Some ll" for ll
    using assms(1)
  proof
    assume "inputType f = ''running''"
    with that assms(2) show ?thesis
      by (intro newWorkout_running_rejected) (auto simp add: allPositive_def)
  next
    assume "inputType f = ''cycling''"
    with that assms(2) show ?thesis
      by (intro newWorkout_cycling_rejected) (auto simp add: allPositive_def)
  qed
  then have "(mapEvent s \<noteq> None \<longrightarrow>
            newWorkout e f s =
              (Normal, s\<lparr> alerts := alerts s @ [''Inputs have to be positive numbers!''] \<rparr>))
         \<and> workouts (snd (newWorkout e f s)) = workouts s"
    by (cases "mapEvent s") (auto simp add: newWorkout_no_mapEvent alert_def)
  then show ?thesis
    using newWorkout_appended_running [of e _ s] newWorkout_appended_cycling [of e _ s]
    by simp
qed

theorem zero_distance_rejected_witness:
  "inputType (form_example\<lparr> inputDistance := Fin 0 \<rparr>) = ''running''
   \<and> inputDistance (form_example\<lparr> inputDistance := Fin 0 \<rparr>) = Fin 0
   \<and> mapEvent page_after_click \<noteq> None
   \<and> newWorkout clock_example (form_example\<lparr> inputDistance := Fin 0 \<rparr>) page_after_click =
       (Normal, page_after_click\<lparr> alerts := [''Inputs have to be positive numbers!''] \<rparr>)"
proof -
  have h1: "mapEvent page_after_click \<noteq> None"
    by (simp add: page_after_click_def)
  have h2: "inputType (form_example\<lparr> inputDistance := Fin 0 \<rparr>) = ''running''"
    and h3: "inputDistance (form_example\<lparr> inputDistance := Fin 0 \<rparr>) = Fin 0"
    by (simp_all add: form_example_def)
  from zero_distance_rejected [OF disjI1 [OF h2] h3, of page_after_click clock_example] h1
  have "newWorkout clock_example (form_example\<lparr> inputDistance := Fin 0 \<rparr>) page_after_click =
       (Normal, page_after_click\<lparr> alerts := alerts page_after_click
            @ [''Inputs have to be positive numbers!''] \<rparr>)"
    by blast
  with h1 h2 h3 show ?thesis by (simp add: page_after_click_def)
qed

text \<open>
  C8. The \<open>date\<close> of a record is the time value \<open>new Date()\<close> gave at construction. Its
  \<open>id\<close> is \<open>slice(-10)\<close> of the decimal string of what \<open>Date.now()\<close> gave; when that
  reading is at least 10^9 (any clock set later than 12 January 1970) the string has at
  least ten digits and the \<open>id\<close> is exactly its last ten. The instances of both classes
  get the same two fields.
\<close>

theorem id_and_date:
  "date (Workout e coords' distance' duration') = new_Date e
   \<and> id_w (Workout e coords' distance' duration') = slice (- 10) (Number_toString (Date_now e))
   \<and> (\<exists>r. Running e coords' distance' duration' cadence' = Inr r
          \<and> date r = new_Date e
          \<and> id_w r = slice (- 10) (Number_toString (Date_now e)))
   \<and> (\<exists>c. Cycling e coords' distance' duration' elevation' = Inr c
          \<and> date c = new_Date e
          \<and> id_w c = slice (- 10) (Number_toString (Date_now e)))
   \<and> (10 ^ 9 \<le> Date_now e \<longrightarrow>
         slice (- 10) (Number_toString (Date_now e)) = last_digits 10 (Date_now e)
         \<and> length (last_digits 10 (Date_now e)) = 10)"
  using slice_last_digits [of "Date_now e"]
  by (simp add: Workout_def Running_Inr Cycling_Inr length_last_digits)

theorem id_and_date_witness:
  "(10::int) ^ 9 \<le> Date_now clock_example
   \<and> date (Workout clock_example (Fin 40.75, Fin (- 74)) (Fin 6) (Fin 24)) = 1635681600123
   \<and> id_w (Workout clock_example (Fin 40.75, Fin (- 74)) (Fin 6) (Fin 24)) = ''5681600124''"
proof -
  have h: "(10::int) ^ 9 \<le> Date_now clock_example" by (simp add: clock_example_def)
  have l: "last_digits 10 (Date_now clock_example) = ''5681600124''"
    by (simp add: clock_example_def numeral_eq_Suc digit_char_def)
  have n: "new_Date clock_example = 1635681600123" by (simp add: clock_example_def)
  from id_and_date [of clock_example "(Fin 40.75, Fin (- 74))" "Fin 6" "Fin 24"
      "Fin 178" "Fin 0"] h
  have "date (Workout clock_example (Fin 40.75, Fin (- 74)) (Fin 6) (Fin 24))
          = new_Date clock_example
        \<and> id_w (Workout clock_example (Fin 40.75, Fin (- 74)) (Fin 6) (Fin 24))
          = last_digits 10 (Date_now clock_example)"
    by metis
  with h l n show ?thesis by simp
qed

text \<open>
  C9. \<open>clicks\<close> is 0 in every record the constructors make. \<open>click\<close> adds one to
  \<open>clicks\<close> and changes no other field: not \<open>date\<close>, \<open>id\<close>, \<open>coords\<close>, \<open>distance\<close>,
  \<open>duration\<close>, nor the fields of the subclass (\<open>type\<close>, \<open>cadence\<close> or \<open>elevation\<close>,
  \<open>pace\<close> or \<open>speed\<close>, \<open>description\<close>).
\<close>

theorem clicks_counter:
  "clicks (Workout e coords' distance' duration') = 0
   \<and> (\<exists>r. Running e coords' distance' duration' cadence' = Inr r \<and> clicks r = 0)
   \<and> (\<exists>c. Cycling e coords' distance' duration' elevation' = Inr c \<and> clicks c = 0)
   \<and> clicks (click this) = clicks this + 1
   \<and> date (click this) = date this \<and> id_w (click this) = id_w this
   \<and> coords (click this) = coords this \<and> distance (click this) = distance this
   \<and> duration (click this) = duration this
   \<and> workout.more (click this) = workout.more this
   \<and> click (r :: running) =
        \<lparr> date = date r, id_w = id_w r, clicks = clicks r + 1, coords = coords r,
          distance = distance r, duration = duration r, running.type = running.type r,
          cadence = cadence r, pace = pace r, running.description = running.description r \<rparr>
   \<and> click (c :: cycling) =
        \<lparr> date = date c, id_w = id_w c, clicks = clicks c + 1, coords = coords c,
          distance = distance c, duration = duration c, type = cycling.type c,
          elevation = elevation c, speed = speed c, description = cycling.description c \<rparr>"
  by (simp add: Workout_def Running_Inr Cycling_Inr click_def)

text \<open>
  C10, as amended. A submission whose type is neither \<open>running\<close> nor \<open>cycling\<close>, made
  after a click on the map, is not validated and shows no alert; the handler appends
  \<open>undefined\<close> to the collection and then raises a \<open>TypeError\<close> where the marker
  rendering reads \<open>workout.coords\<close>. Nothing after that runs: no marker, no list entry,
  the form stays as it is, and storage is not written.
\<close>

theorem unknown_type_raises:
  assumes "mapEvent s = Some ll"
    and "inputType f \<noteq> ''running''" and "inputType f \<noteq> ''cycling''"
  shows "newWorkout e f s =
           (Throw TypeError, s\<lparr> workouts := workouts s @ [Value Undefined] \<rparr>)
         \<and> alerts (snd (newWorkout e f s)) = alerts s
         \<and> markers (snd (newWorkout e f s)) = markers s
         \<and> list_items (snd (newWorkout e f s)) = list_items s
         \<and> form_hidden (snd (newWorkout e f s)) = form_hidden s
         \<and> localStorage (snd (newWorkout e f s)) = localStorage s"
  using assms by (simp add: newWorkout_other_type)

theorem unknown_type_raises_witness:
  "mapEvent page_after_click = Some (Fin 40.75, Fin (- 74))
   \<and> inputType (form_example\<lparr> inputType := ''walking'' \<rparr>) \<noteq> ''running''
   \<and> inputType (form_example\<lparr> inputType := ''walking'' \<rparr>) \<noteq> ''cycling''
   \<and> newWorkout clock_example (form_example\<lparr> inputType := ''walking'' \<rparr>) page_after_click =
       (Throw TypeError, page_after_click\<lparr> workouts := [Value Undefined] \<rparr>)"
proof -
  have h1: "mapEvent page_after_click = Some (Fin 40.75, Fin (- 74))"
    by (simp add: page_after_click_def)
  have h2: "inputType (form_example\<lparr> inputType := ''walking'' \<rparr>) \<noteq> ''running''"
    and h3: "inputType (form_example\<lparr> inputType := ''walking'' \<rparr>) \<noteq> ''cycling''"
    by simp_all
  from unknown_type_raises [OF h1 h2 h3, of clock_example]
  have "newWorkout clock_example (form_example\<lparr> inputType := ''walking'' \<rparr>) page_after_click =
       (Throw TypeError,
        page_after_click\<lparr> workouts := workouts page_after_click @ [Value Undefined] \<rparr>)"
    by blast
  with h1 h2 h3 show ?thesis by (simp add: page_after_click_def)
qed

text \<open>
  C10 as stated fails: for the type "walking" the handler ends in a \<open>TypeError\<close>, and
  the store has no item "workouts" afterwards, although \<open>undefined\<close> is in the
  collection.
\<close>

theorem unknown_type_counterexample:
  "fst (newWorkout clock_example (form_example\<lparr> inputType := ''walking'' \<rparr>) page_after_click)
     = Throw TypeError
   \<and> workouts (snd (newWorkout clock_example (form_example\<lparr> inputType := ''walking'' \<rparr>)
        page_after_click)) = [Value Undefined]
   \<and> localStorage (snd (newWorkout clock_example (form_example\<lparr> inputType := ''walking'' \<rparr>)
        page_after_click)) ''workouts'' = None"
  by (simp add: newWorkout_def page_after_click_def renderWorkoutMarker_def nullish_def)

end
